theory Spec2Isabelle
  imports Complex_Main
begin

section \<open>Exceptions and console output\<close>

text \<open>
  The kinds of exception the code raises, catches or lets through. An exception is a
  value, so that "the same exception" is equality.
\<close>

datatype exn =
    ConnectError
  | HTTPStatusError nat
  | TimeoutError
  | JSONDecodeError
  | UnicodeDecodeError
  | RecursionError
  | FileNotFoundError
  | TypeError
  | IndexError
  | KeyError
  | ValueError
  | AttributeError
  | OtherException string
  | KeyboardInterrupt
  | CancelledError

text \<open>
  \<open>KeyboardInterrupt\<close> and \<open>asyncio.CancelledError\<close> derive from \<open>BaseException\<close> only;
  every other kind is a subclass of \<open>Exception\<close>, which is what \<open>except Exception\<close> tests.
\<close>

fun is_Exception :: "exn \<Rightarrow> bool" where
  "is_Exception KeyboardInterrupt = False"
| "is_Exception CancelledError = False"
| "is_Exception _ = True"

text \<open>
  Everything the program writes (\<open>print\<close>, \<open>console.print\<close>) is collected, in order, as a
  list of messages. A message keeps which line of the source wrote it and the values
  interpolated into it; the markup and the exact wording are left out.
\<close>

datatype message =
    RetryWarning nat int exn int
  | RetryFailed int
  | CacheUsing string
  | CacheExpired string
  | FetchConnectionFailed string
  | FetchHTTPError nat string
  | FetchUnexpected exn
  | BuiltinNotFound
  | BuiltinParseFailed
  | Scanning string
  | NoURLsFound string
  | FoundURLs nat
  | NoHighSignal
  | JsonDump string "string list"
  | FinalList nat
  | Line string

section \<open>The cache store (paramspy/core/cache.py)\<close>

text \<open>
  The table \<open>params\<close> that \<open>_setup_db\<close> creates has the columns \<open>domain\<close> (the primary
  key), \<open>params_json\<close> and \<open>timestamp\<close>. It is modelled as the list of its rows, so that
  the uniqueness of the key is a property to prove, not one built into the type. The
  column \<open>params_json\<close> holds the list itself: \<open>json.loads (json.dumps l) = l\<close> for a
  list of strings. The methods are modelled on a cache object whose connection is open.
\<close>

record row =
  domain :: string
  params_json :: "string list"
  timestamp :: int

type_synonym db = "row list"

definition CACHE_TTL :: int where
  "CACHE_TTL = 30 * 24 * 60 * 60"

text \<open>The statements of SQL the methods execute.\<close>

definition setup_db :: "db option \<Rightarrow> db" where
  \<comment> \<open>CREATE TABLE IF NOT EXISTS\<close>
  "setup_db existing = (case existing of None \<Rightarrow> [] | Some t \<Rightarrow> t)"

definition select_where :: "string \<Rightarrow> db \<Rightarrow> row option" where
  \<comment> \<open>SELECT ... WHERE domain = ?, then fetchone\<close>
  "select_where d t = find (\<lambda>r. domain r = d) t"

definition delete_where :: "string \<Rightarrow> db \<Rightarrow> db" where
  \<comment> \<open>DELETE FROM params WHERE domain = ?\<close>
  "delete_where d t = filter (\<lambda>r. domain r \<noteq> d) t"

definition insert_or_replace :: "row \<Rightarrow> db \<Rightarrow> db" where
  \<comment> \<open>INSERT OR REPLACE: the rows in conflict on the primary key are deleted first\<close>
  "insert_or_replace r t = filter (\<lambda>x. domain x \<noteq> domain r) t @ [r]"

definition select_count :: "db \<Rightarrow> nat" where
  \<comment> \<open>SELECT COUNT(*) FROM params\<close>
  "select_count t = length t"

definition delete_all :: "db \<Rightarrow> db" where
  \<comment> \<open>DELETE FROM params\<close>
  "delete_all t = []"

text \<open>\<open>time.time()\<close> is a number of seconds with a fraction; \<open>int\<close> truncates towards zero.\<close>

definition py_int :: "real \<Rightarrow> int" where
  "py_int x = (if 0 \<le> x then \<lfloor>x\<rfloor> else \<lceil>x\<rceil>)"

definition delete :: "string \<Rightarrow> db \<Rightarrow> db" where
  "delete d t = delete_where d t"

definition get :: "real \<Rightarrow> string \<Rightarrow> db \<Rightarrow> string list option \<times> message list \<times> db" where
  "get now d t =
     (case select_where d t of
        Some r \<Rightarrow>
          if now - real_of_int (timestamp r) < real_of_int CACHE_TTL
          then (Some (params_json r), [CacheUsing d], t)
          else (None, [CacheExpired d], delete d t)
      | None \<Rightarrow> (None, [], t))"

definition set_entry :: "real \<Rightarrow> string \<Rightarrow> string list \<Rightarrow> db \<Rightarrow> db" where
  \<comment> \<open>the method \<open>set\<close>\<close>
  "set_entry now d ps t =
     insert_or_replace \<lparr>domain = d, params_json = ps, timestamp = py_int now\<rparr> t"

definition clear_all :: "db \<Rightarrow> nat \<times> db" where
  "clear_all t = (let count = select_count t in (count, delete_all t))"

datatype remaining = Expired | DaysHours int int | Hours int | LessThanHour

definition time_remaining :: "real \<Rightarrow> int \<Rightarrow> remaining" where
  "time_remaining now ts =
     (let remaining_seconds = real_of_int (ts + CACHE_TTL) - now in
      if remaining_seconds \<le> 0 then Expired
      else
        let days = \<lfloor>remaining_seconds / (24 * 3600)\<rfloor>;
            hours = \<lfloor>(remaining_seconds - (24 * 3600) * real_of_int \<lfloor>remaining_seconds / (24 * 3600)\<rfloor>) / 3600\<rfloor>
        in if days > 0 then DaysHours days hours
           else if hours > 0 then Hours hours
           else LessThanHour)"

record status_item =
  st_domain :: string
  cached_since :: int
  expires_in :: remaining

definition get_status :: "real \<Rightarrow> db \<Rightarrow> status_item list" where
  \<comment> \<open>\<open>cached_since\<close> is kept as the timestamp that \<open>strftime\<close> formats\<close>
  "get_status now t =
     map (\<lambda>r. \<lparr>st_domain = domain r, cached_since = timestamp r,
               expires_in = time_remaining now (timestamp r)\<rparr>) t"

text \<open>At most one row per domain.\<close>

definition one_per_domain :: "db \<Rightarrow> bool" where
  "one_per_domain t = distinct (map domain t)"

section \<open>Python strings\<close>

definition endswith :: "string \<Rightarrow> string \<Rightarrow> bool" where
  \<comment> \<open>\<open>s.endswith(suffix)\<close>\<close>
  "endswith s suffix =
     (length suffix \<le> length s \<and> drop (length s - length suffix) s = suffix)"

definition startswith :: "string \<Rightarrow> string \<Rightarrow> bool" where
  "startswith s pre = (take (length pre) s = pre)"

definition py_find :: "char \<Rightarrow> string \<Rightarrow> nat option" where
  \<comment> \<open>\<open>s.find(c)\<close>, with None for -1\<close>
  "py_find c s = (if c \<in> set s then Some (length (takeWhile (\<lambda>x. x \<noteq> c) s)) else None)"

definition lower_char :: "char \<Rightarrow> char" where
  \<comment> \<open>\<open>str.lower\<close> on the ASCII letters; other bytes are kept\<close>
  "lower_char c =
     (case map_of (zip ''ABCDEFGHIJKLMNOPQRSTUVWXYZ'' ''abcdefghijklmnopqrstuvwxyz'') c of
        Some l \<Rightarrow> l | None \<Rightarrow> c)"

definition lower :: "string \<Rightarrow> string" where
  "lower s = map lower_char s"

definition is_space :: "char \<Rightarrow> bool" where
  \<comment> \<open>the ASCII whitespace that \<open>str.strip()\<close> removes\<close>
  "is_space c = (c \<in> set [CHR '' '', CHR 0x09, CHR 0x0A, CHR 0x0B, CHR 0x0C, CHR 0x0D,
                              CHR 0x1C, CHR 0x1D, CHR 0x1E, CHR 0x1F])"

definition strip :: "string \<Rightarrow> string" where
  "strip s = rev (dropWhile is_space (rev (dropWhile is_space s)))"

text \<open>
  \<open>s.replace(old, new)\<close> for a non-empty \<open>old\<close>: the occurrences are replaced from the
  left and do not overlap. The counter is the number of characters of a matched
  occurrence still to skip.
\<close>

fun replace_from :: "string \<Rightarrow> string \<Rightarrow> nat \<Rightarrow> string \<Rightarrow> string" where
  "replace_from old new k [] = []"
| "replace_from old new (Suc k) (c # cs) = replace_from old new k cs"
| "replace_from old new 0 (c # cs) =
     (if old \<noteq> [] \<and> startswith (c # cs) old
      then new @ replace_from old new (length old - 1) cs
      else c # replace_from old new 0 cs)"

definition replace :: "string \<Rightarrow> string \<Rightarrow> string \<Rightarrow> string" where
  "replace s old new = replace_from old new 0 s"

section \<open>JSON values and the operations Python applies to them\<close>

datatype json =
    JNull
  | JBool bool
  | JNum real
  | JStr string
  | JArr "json list"
  | JObj "(string \<times> json) list"

fun falsy :: "json \<Rightarrow> bool" where
  \<comment> \<open>\<open>not v\<close>\<close>
  "falsy JNull = True"
| "falsy (JBool b) = (\<not> b)"
| "falsy (JNum x) = (x = 0)"
| "falsy (JStr s) = (s = [])"
| "falsy (JArr xs) = (xs = [])"
| "falsy (JObj kvs) = (kvs = [])"

fun py_len :: "json \<Rightarrow> exn + nat" where
  \<comment> \<open>\<open>len(v)\<close>\<close>
  "py_len (JStr s) = Inr (length s)"
| "py_len (JArr xs) = Inr (length xs)"
| "py_len (JObj kvs) = Inr (length (remdups (map fst kvs)))"
| "py_len _ = Inl TypeError"

fun slice_from_1 :: "json \<Rightarrow> exn + json list" where
  \<comment> \<open>\<open>v[1:]\<close>, as the sequence of the items a for loop takes from it\<close>
  "slice_from_1 (JArr xs) = Inr (drop 1 xs)"
| "slice_from_1 (JStr s) = Inr (map (\<lambda>c. JStr [c]) (drop 1 s))"
| "slice_from_1 _ = Inl TypeError"

fun index_0 :: "json \<Rightarrow> exn + json" where
  \<comment> \<open>\<open>v[0]\<close>\<close>
  "index_0 (JArr []) = Inl IndexError"
| "index_0 (JArr (x # xs)) = Inr x"
| "index_0 (JStr []) = Inl IndexError"
| "index_0 (JStr (c # cs)) = Inr (JStr [c])"
| "index_0 (JObj kvs) = Inl KeyError"
| "index_0 _ = Inl TypeError"

section \<open>The network location of a URL\<close>

text \<open>
  \<open>urlparse(url).netloc\<close> of the standard library, as \<open>urllib.parse.urlsplit\<close> computes
  it: leading control characters and spaces are stripped, tabs and line breaks are
  removed, a scheme (letters, digits, \<open>+\<close>, \<open>-\<close>, \<open>.\<close> before the first colon, starting
  with a letter) is split off, and, if what follows starts with \<open>//\<close>, the network
  location runs up to the first \<open>/\<close>, \<open>?\<close> or \<open>#\<close>. An unbalanced square bracket in it
  raises \<open>ValueError\<close>. (The checks on the text inside brackets and on characters outside
  ASCII are not modelled.)
\<close>

definition scheme_chars :: "char set" where
  "scheme_chars =
     set ''abcdefghijklmnopqrstuvwxyzABCDEFGHIJKLMNOPQRSTUVWXYZ0123456789+-.''"

definition ascii_alpha :: "char \<Rightarrow> bool" where
  "ascii_alpha c = (c \<in> set ''abcdefghijklmnopqrstuvwxyzABCDEFGHIJKLMNOPQRSTUVWXYZ'')"

definition c0_control_or_space :: "char \<Rightarrow> bool" where
  "c0_control_or_space c = ((of_char c :: nat) \<le> 32)"

definition unsafe_byte :: "char \<Rightarrow> bool" where
  "unsafe_byte c = (c \<in> set [CHR 0x09, CHR 0x0D, CHR 0x0A])"

definition split_scheme :: "string \<Rightarrow> string" where
  \<comment> \<open>the URL without its scheme\<close>
  "split_scheme url =
     (case py_find CHR '':'' url of
        None \<Rightarrow> url
      | Some i \<Rightarrow>
          if i > 0 \<and> ascii_alpha (hd url) \<and> (\<forall>c \<in> set (take i url). c \<in> scheme_chars)
          then drop (i + 1) url
          else url)"

definition urlparse_netloc :: "string \<Rightarrow> exn + string" where
  "urlparse_netloc url0 =
     (let url = split_scheme (filter (\<lambda>c. \<not> unsafe_byte c) (dropWhile c0_control_or_space url0))
      in if take 2 url = ''//''
         then
           let netloc = takeWhile (\<lambda>c. c \<notin> set ''/?#'') (drop 2 url) in
           if (CHR ''['' \<in> set netloc \<and> CHR '']'' \<notin> set netloc) \<or>
              (CHR '']'' \<in> set netloc \<and> CHR ''['' \<notin> set netloc)
           then Inl ValueError
           else Inr netloc
         else Inr [])"

section \<open>The archive client (core/fetcher.py)\<close>

text \<open>
  What the archive answers to the one GET request is an input of the model: the request
  raises, or a response arrives with a status code and a body, which \<open>response.json()\<close>
  decodes or fails to decode (\<open>None\<close>).
\<close>

record response =
  status_code :: nat
  json_body :: "json option"

datatype http_result = Raises exn | Responds response

definition is_success :: "nat \<Rightarrow> bool" where
  "is_success code = (200 \<le> code \<and> code \<le> 299)"

definition raise_for_status :: "response \<Rightarrow> exn option" where
  "raise_for_status r =
     (if is_success (status_code r) then None else Some (HTTPStatusError (status_code r)))"

text \<open>
  The test of line 55 on one row. A URL that is no string makes \<open>urlparse\<close> or
  \<open>endswith\<close> raise: a falsy value is parsed as empty bytes, whose \<open>endswith\<close> refuses a
  \<open>str\<close>; any other value has no \<open>decode\<close>.
\<close>

definition belongs :: "string \<Rightarrow> json \<Rightarrow> exn + bool" where
  "belongs d url =
     (case url of
        JStr s \<Rightarrow>
          (case urlparse_netloc s of
             Inl e \<Rightarrow> Inl e
           | Inr netloc \<Rightarrow> Inr (endswith netloc d \<or> netloc = d))
      | _ \<Rightarrow> if falsy url then Inl TypeError else Inl AttributeError)"

definition the_str :: "json \<Rightarrow> string" where
  "the_str v = (case v of JStr s \<Rightarrow> s | _ \<Rightarrow> [])"

text \<open>
  The loop over \<open>data[1:]\<close>: the exception that ended it, if one did, and the set \<open>urls\<close>
  as it stands then.
\<close>

fun process_rows :: "string \<Rightarrow> json list \<Rightarrow> string set \<Rightarrow> exn option \<times> string set" where
  "process_rows d [] urls = (None, urls)"
| "process_rows d (row # rows) urls =
     (case index_0 row of
        Inl e \<Rightarrow> (Some e, urls)
      | Inr url \<Rightarrow>
          (case belongs d url of
             Inl e \<Rightarrow> (Some e, urls)
           | Inr True \<Rightarrow> process_rows d rows (insert (the_str url) urls)
           | Inr False \<Rightarrow> process_rows d rows urls))"

text \<open>The body of the \<open>try\<close> block: the exception it raised, if any, and \<open>urls\<close>.\<close>

definition fetch_try :: "string \<Rightarrow> http_result \<Rightarrow> exn option \<times> string set" where
  "fetch_try d h =
     (case h of
        Raises e \<Rightarrow> (Some e, {})
      | Responds r \<Rightarrow>
          (case raise_for_status r of
             Some e \<Rightarrow> (Some e, {})
           | None \<Rightarrow>
               (case json_body r of
                  None \<Rightarrow> (Some JSONDecodeError, {})
                | Some data \<Rightarrow>
                    if falsy data then (None, {})
                    else
                      (case py_len data of
                         Inl e \<Rightarrow> (Some e, {})
                       | Inr n \<Rightarrow>
                           if n \<le> 1 then (None, {})
                           else
                             (case slice_from_1 data of
                                Inl e \<Rightarrow> (Some e, {})
                              | Inr rows \<Rightarrow> process_rows d rows {})))))"

text \<open>
  The three \<open>except\<close> clauses print and fall through to \<open>return urls\<close>; an exception that
  is no \<open>Exception\<close> leaves the function (\<open>Inl\<close>).
\<close>

definition fetch_wayback_urls :: "string \<Rightarrow> http_result \<Rightarrow> exn + (string set \<times> message list)" where
  "fetch_wayback_urls d h =
     (case fetch_try d h of
        (None, urls) \<Rightarrow> Inr (urls, [])
      | (Some e, urls) \<Rightarrow>
          (case e of
             ConnectError \<Rightarrow> Inr (urls, [FetchConnectionFailed d])
           | HTTPStatusError code \<Rightarrow> Inr (urls, [FetchHTTPError code d])
           | _ \<Rightarrow> if is_Exception e then Inr (urls, [FetchUnexpected e]) else Inl e))"

section \<open>The retry decorator (utils/decorators.py)\<close>

text \<open>
  The wrapped function may answer differently each time it is called: it is given as
  the outcome of its call number \<open>k\<close> (from 0), \<open>Inl\<close> an exception raised and \<open>Inr\<close> a
  value returned. \<open>except exceptions\<close> is the test \<open>exceptions e\<close>. The state counts the
  calls made and the seconds slept, and collects what was printed.
\<close>

record retry_state =
  calls :: nat
  slept :: int
  printed :: "message list"

definition default_exceptions :: "exn \<Rightarrow> bool" where
  \<comment> \<open>(HTTPStatusError, ConnectError, TimeoutError)\<close>
  "default_exceptions e =
     (case e of HTTPStatusError code \<Rightarrow> True | ConnectError \<Rightarrow> True | TimeoutError \<Rightarrow> True
      | _ \<Rightarrow> False)"

function wrapper_loop ::
  "int \<Rightarrow> int \<Rightarrow> (exn \<Rightarrow> bool) \<Rightarrow> (nat \<Rightarrow> exn + 'a) \<Rightarrow> nat \<Rightarrow> retry_state
   \<Rightarrow> (exn + 'a option) \<times> retry_state" where
  "wrapper_loop max_retries delay exceptions func attempt s =
     (if int attempt < max_retries then
        (let s1 = s\<lparr>calls := calls s + 1\<rparr> in
         case func (calls s) of
           Inr v \<Rightarrow> (Inr (Some v), s1)
         | Inl e \<Rightarrow>
             if exceptions e then
               (if int attempt < max_retries - 1
                then wrapper_loop max_retries delay exceptions func (attempt + 1)
                       (s1\<lparr>slept := slept s1 + delay,
                           printed := printed s1 @ [RetryWarning (attempt + 1) max_retries e delay]\<rparr>)
                else (Inl e, s1\<lparr>printed := printed s1 @ [RetryFailed max_retries]\<rparr>))
             else (Inl e, s1))
      else (Inr None, s))"
  by pat_completeness auto
termination
  by (relation "measure (\<lambda>(max_retries, delay, exceptions, func, attempt, s).
        nat (max_retries - int attempt))") auto

declare wrapper_loop.simps [simp del]

definition retry_on_failure ::
  "int \<Rightarrow> int \<Rightarrow> (exn \<Rightarrow> bool) option \<Rightarrow> (nat \<Rightarrow> exn + 'a) \<Rightarrow> (exn + 'a option) \<times> retry_state" where
  "retry_on_failure max_retries delay exceptions func =
     (let excs = (case exceptions of None \<Rightarrow> default_exceptions | Some es \<Rightarrow> es)
      in wrapper_loop max_retries delay excs func 0 \<lparr>calls = 0, slept = 0, printed = []\<rparr>)"

text \<open>An attempt that fails with an exception the wrapper retries on.\<close>

definition fails_retryable :: "(exn \<Rightarrow> bool) \<Rightarrow> (nat \<Rightarrow> exn + 'a) \<Rightarrow> nat \<Rightarrow> bool" where
  "fails_retryable exceptions func k =
     (case func k of Inl e \<Rightarrow> exceptions e | Inr v \<Rightarrow> False)"

section \<open>The command line (paramspy/cli.py)\<close>

text \<open>
  \<open>_load_builtin_params\<close>. The packaged file at \<open>DATA_PATH\<close> is an input, given by what
  is on disk: no file; bytes that are no text in the encoding \<open>open\<close> reads with; text
  that is no JSON document; text nested deeper than the interpreter's recursion limit
  (well formed or not); or a JSON document, with the value it decodes to.
\<close>

datatype packaged_file = Absent | NotText | NotJSON | TooDeep bool | Document json

definition valid_json :: "packaged_file \<Rightarrow> bool" where
  "valid_json f =
     (case f of Document v \<Rightarrow> True | TooDeep well_formed \<Rightarrow> well_formed | _ \<Rightarrow> False)"

text \<open>
  The two lines of the \<open>try\<close> block: \<open>open\<close> raises \<open>FileNotFoundError\<close> when there is no
  file; \<open>json.load\<close> reads the whole file, which raises \<open>UnicodeDecodeError\<close> on bytes
  that are no text, and then parses it, which raises \<open>JSONDecodeError\<close> on text that is
  no JSON document and \<open>RecursionError\<close> on nesting beyond the limit.
\<close>

definition open_and_load :: "packaged_file \<Rightarrow> exn + json" where
  "open_and_load f =
     (case f of
        Absent \<Rightarrow> Inl FileNotFoundError
      | NotText \<Rightarrow> Inl UnicodeDecodeError
      | NotJSON \<Rightarrow> Inl JSONDecodeError
      | TooDeep well_formed \<Rightarrow> Inl RecursionError
      | Document v \<Rightarrow> Inr v)"

text \<open>
  The function with its two \<open>except\<close> clauses, on what the \<open>try\<close> block did: the decoded
  value, or the exception that \<open>open\<close> or \<open>json.load\<close> raised.
\<close>

definition load_builtin_params :: "exn + json \<Rightarrow> (exn + json) \<times> message list" where
  "load_builtin_params file =
     (case file of
        Inr v \<Rightarrow> (Inr v, [])
      | Inl e \<Rightarrow>
          if e = FileNotFoundError then (Inr (JArr []), [BuiltinNotFound])
          else if e = JSONDecodeError then (Inr (JArr []), [BuiltinParseFailed])
          else (Inl e, []))"

text \<open>
  The command \<open>scan\<close>. It ends by returning, by \<open>typer.Exit\<close> with a process exit code,
  or with an exception it does not handle. The two functions of \<open>paramspy.core.parser\<close>
  are parameters (the second one applied to \<open>list(extracted_set)\<close>), as are the answer of
  the archive, the packaged file and the clock readings of \<open>get\<close> and of \<open>set\<close>.
\<close>

datatype outcome = Returned | Exit int | Raised exn

record scan_env =
  http :: http_result
  builtin_file :: "exn + json"
  t_get :: real
  t_set :: real

record scan_result =
  outcome :: outcome
  console :: "message list"
  store :: db
  fetch_called :: bool

definition normalise_domain :: "string \<Rightarrow> string" where
  \<comment> \<open>line 50\<close>
  "normalise_domain d = replace (replace (strip (lower d)) ''http://'' []) ''https://'' []"

definition truthy :: "string list option \<Rightarrow> bool" where
  \<comment> \<open>\<open>if cached_params:\<close>\<close>
  "truthy v = (case v of None \<Rightarrow> False | Some l \<Rightarrow> l \<noteq> [])"

definition output_results :: "string \<Rightarrow> string option \<Rightarrow> string list \<Rightarrow> message list" where
  \<comment> \<open>step 6\<close>
  "output_results d output final_params =
     (if final_params = [] then [NoHighSignal]
      else if output = Some ''json'' then [JsonDump d final_params]
      else FinalList (length final_params) # map Line final_params)"

definition scan ::
  "(string \<Rightarrow> string set) \<Rightarrow> (string set \<Rightarrow> json \<Rightarrow> string list) \<Rightarrow> scan_env
   \<Rightarrow> string \<Rightarrow> string option \<Rightarrow> db \<Rightarrow> scan_result" where
  "scan extract_params_from_url merge_and_filter_all_params env domain0 output t =
     (let d = normalise_domain domain0 in
      case get (t_get env) d t of
        (cached_params, m1, t1) \<Rightarrow>
          if truthy cached_params
          then \<lparr>outcome = Returned, console = m1 @ output_results d output (the cached_params),
                store = t1, fetch_called = False\<rparr>
          else
            (case fetch_wayback_urls d (http env) of
               Inl e \<Rightarrow> \<lparr>outcome = Raised e, console = m1 @ [Scanning d], store = t1,
                          fetch_called = True\<rparr>
             | Inr (urls, m2) \<Rightarrow>
                 if urls = {}
                 then \<lparr>outcome = Exit 1, console = m1 @ [Scanning d] @ m2 @ [NoURLsFound d],
                       store = t1, fetch_called = True\<rparr>
                 else
                   (let extracted_set = \<Union> (extract_params_from_url ` urls);
                        m3 = m1 @ [Scanning d] @ m2 @ [FoundURLs (card urls)]
                    in case load_builtin_params (builtin_file env) of
                         (Inl e, m4) \<Rightarrow> \<lparr>outcome = Raised e, console = m3 @ m4, store = t1,
                                          fetch_called = True\<rparr>
                       | (Inr builtin_params, m4) \<Rightarrow>
                           (let final_params =
                                  merge_and_filter_all_params extracted_set builtin_params;
                                t2 = set_entry (t_set env) d final_params t1
                            in \<lparr>outcome = Returned,
                                console = m3 @ m4 @ output_results d output final_params,
                                store = t2, fetch_called = True\<rparr>))))"

section \<open>The parameter extractor\<close>

text \<open>
  Modelled from the spec: \<open>paramspy/core/parser.py\<close>, which defines
  \<open>extract_params_from_url\<close>, is not among the sources. The spec (4.3) has it parse the
  URL's query component into \<open>key=value\<close> pairs by standard query-string decoding
  (pairs separated by \<open>&\<close>, percent-decoding, repeated keys) and return the set of the
  distinct keys, the values discarded; a URL with no query component yields the empty
  set. The query component is the text between the first \<open>?\<close> and the fragment; the key
  of a pair is its text before the first \<open>=\<close>, decoded.
\<close>

definition url_query :: "string \<Rightarrow> string option" where
  "url_query u =
     (let before_fragment = takeWhile (\<lambda>c. c \<noteq> CHR ''#'') u in
      if CHR ''?'' \<in> set before_fragment
      then Some (drop 1 (dropWhile (\<lambda>c. c \<noteq> CHR ''?'') before_fragment))
      else None)"

fun split_on :: "char \<Rightarrow> string \<Rightarrow> string list" where
  "split_on sep [] = [[]]"
| "split_on sep (c # cs) =
     (if c = sep then [] # split_on sep cs
      else (case split_on sep cs of
              [] \<Rightarrow> [[c]]
            | p # ps \<Rightarrow> (c # p) # ps))"

definition hex_value :: "char \<Rightarrow> nat option" where
  "hex_value c =
     map_of (zip ''0123456789abcdefABCDEF''
       [0, 1, 2, 3, 4, 5, 6, 7, 8, 9, 10, 11, 12, 13, 14, 15, 10, 11, 12, 13, 14, 15]) c"

fun unquote_plus :: "string \<Rightarrow> string" where
  "unquote_plus (c # h # l # cs) =
     (if c = CHR ''%'' then
        (case (hex_value h, hex_value l) of
           (Some a, Some b) \<Rightarrow> char_of (16 * a + b) # unquote_plus cs
         | _ \<Rightarrow> c # unquote_plus (h # l # cs))
      else (if c = CHR ''+'' then CHR '' '' else c) # unquote_plus (h # l # cs))"
| "unquote_plus (c # cs) = (if c = CHR ''+'' then CHR '' '' else c) # unquote_plus cs"
| "unquote_plus [] = []"

definition query_pairs :: "string \<Rightarrow> (string \<times> string) list" where
  "query_pairs q =
     map (\<lambda>p. (unquote_plus (takeWhile (\<lambda>c. c \<noteq> CHR ''='') p),
                unquote_plus (drop 1 (dropWhile (\<lambda>c. c \<noteq> CHR ''='') p))))
       (filter (\<lambda>p. p \<noteq> []) (split_on CHR ''&'' q))"

definition extract_params :: "string \<Rightarrow> string set" where
  \<comment> \<open>the spec's \<open>extract\<close>\<close>
  "extract_params u = (case url_query u of None \<Rightarrow> {} | Some q \<Rightarrow> set (map fst (query_pairs q)))"

text \<open>
  To state what the extractor returns on a query string written from given pairs: the
  pairs as \<open>k=v\<close> joined by \<open>&\<close>, for keys and values of characters that need no
  encoding.
\<close>

fun query_string :: "(string \<times> string) list \<Rightarrow> string" where
  "query_string [] = []"
| "query_string [(k, v)] = k @ ''='' @ v"
| "query_string ((k, v) # kvs) = k @ ''='' @ v @ ''&'' @ query_string kvs"

definition plain_text :: "string \<Rightarrow> bool" where
  "plain_text s = (\<forall>c \<in> set s. c \<notin> set ''&=#%+'')"

section \<open>Properties of the cache store\<close>

lemma select_where_filter_other:
  "select_where d (filter (\<lambda>x. domain x \<noteq> d) t) = None"
  by (induction t) (auto simp: select_where_def)

lemma select_where_insert_or_replace:
  "select_where (domain r) (insert_or_replace r t) = Some r"
  by (induction t) (auto simp: select_where_def insert_or_replace_def)

lemma one_per_domain_delete_where:
  "one_per_domain t \<Longrightarrow> one_per_domain (delete_where d t)"
  by (simp add: one_per_domain_def delete_where_def distinct_map_filter)

lemma one_per_domain_insert_or_replace:
  "one_per_domain t \<Longrightarrow> one_per_domain (insert_or_replace r t)"
  by (auto simp: one_per_domain_def insert_or_replace_def distinct_map_filter)

lemma one_per_domain_get:
  "one_per_domain t \<Longrightarrow> one_per_domain (snd (snd (get now d t)))"
  by (auto simp: get_def delete_def one_per_domain_delete_where split: option.splits)

lemma select_where_insert_or_replace_other:
  "d \<noteq> domain r \<Longrightarrow> select_where d (insert_or_replace r t) = select_where d t"
  by (induction t) (auto simp: select_where_def insert_or_replace_def)

lemma select_where_None_iff:
  "select_where d t = None \<longleftrightarrow> d \<notin> domain ` set t"
  by (auto simp: select_where_def find_None_iff)

lemma rows_of_domain_insert_or_replace:
  "filter (\<lambda>x. domain x = domain r) (insert_or_replace r t) = [r]"
  by (induction t) (auto simp: insert_or_replace_def)

text \<open>
  C4. \<open>CACHE_TTL\<close> is 30 days in seconds. When the store holds an entry for the domain
  with timestamp \<open>T\<close> and list \<open>L\<close>, \<open>get\<close> at a time \<open>now\<close> with \<open>now - T < CACHE_TTL\<close>
  returns \<open>L\<close> and leaves the store as it is; with \<open>now - T \<ge> CACHE_TTL\<close> it returns
  nothing and the store it leaves is the old one without the rows of that domain, so
  that no entry for the domain is left. On a domain with no entry \<open>get\<close> returns nothing
  and leaves the store as it is.
\<close>

theorem get_respects_ttl:
  "CACHE_TTL = 2592000 \<and>
   (select_where d t = Some r \<and> now - real_of_int (timestamp r) < real_of_int CACHE_TTL
      \<longrightarrow> fst (get now d t) = Some (params_json r) \<and> snd (snd (get now d t)) = t) \<and>
   (select_where d t = Some r \<and> now - real_of_int (timestamp r) \<ge> real_of_int CACHE_TTL
      \<longrightarrow> fst (get now d t) = None \<and>
          snd (snd (get now d t)) = filter (\<lambda>x. domain x \<noteq> d) t \<and>
          select_where d (snd (snd (get now d t))) = None) \<and>
   (select_where d t = None
      \<longrightarrow> fst (get now d t) = None \<and> snd (snd (get now d t)) = t)"
  by (simp add: get_def delete_def delete_where_def select_where_filter_other CACHE_TTL_def)

theorem get_respects_ttl_witness:
  "fst (get 2592999 ''a.com'' [\<lparr>domain = ''a.com'', params_json = [''id''], timestamp = 1000\<rparr>])
     = Some [''id''] \<and>
   fst (get 2593001 ''a.com'' [\<lparr>domain = ''a.com'', params_json = [''id''], timestamp = 1000\<rparr>])
     = None \<and>
   snd (snd (get 2593001 ''a.com''
     [\<lparr>domain = ''a.com'', params_json = [''id''], timestamp = 1000\<rparr>])) = [] \<and>
   fst (get 2592999 ''b.com'' [\<lparr>domain = ''a.com'', params_json = [''id''], timestamp = 1000\<rparr>])
     = None"
proof -
  let ?r = "\<lparr>domain = ''a.com'', params_json = [''id''], timestamp = 1000\<rparr>"
  have hit: "select_where ''a.com'' [?r] = Some ?r"
    by (simp add: select_where_def)
  have miss: "select_where ''b.com'' [?r] = None"
    by (simp add: select_where_def)
  have fresh: "(2592999::real) - real_of_int (timestamp ?r) < real_of_int CACHE_TTL"
    by (simp add: CACHE_TTL_def)
  have stale: "(2593001::real) - real_of_int (timestamp ?r) \<ge> real_of_int CACHE_TTL"
    by (simp add: CACHE_TTL_def)
  from get_respects_ttl [of "''a.com''" "[?r]" ?r 2592999] hit fresh
  have a: "fst (get 2592999 ''a.com'' [?r]) = Some [''id'']" by simp
  from get_respects_ttl [of "''a.com''" "[?r]" ?r 2593001] hit stale
  have b: "fst (get 2593001 ''a.com'' [?r]) = None"
    and c: "snd (snd (get 2593001 ''a.com'' [?r])) = []" by simp_all
  from get_respects_ttl [of "''b.com''" "[?r]" ?r 2592999] miss
  have e: "fst (get 2592999 ''b.com'' [?r]) = None" by simp
  from a b c e show ?thesis by simp
qed

text \<open>
  C6. The store holds at most one entry per domain: the table starts empty, and \<open>set\<close>,
  \<open>delete\<close>, \<open>get\<close> and \<open>clear_all\<close> each keep the domains of the rows distinct. After
  \<open>set\<close> on a domain the store holds exactly one row for it, with the new list and with
  the time of the \<open>set\<close> (in whole seconds) as its timestamp; the entries of the other
  domains are as before; and a \<open>get\<close> within the TTL of that timestamp returns the new
  list.
\<close>

theorem set_replaces_entry:
  "one_per_domain (setup_db None) \<and>
   (one_per_domain t \<longrightarrow>
      one_per_domain (set_entry now d ps t) \<and> one_per_domain (delete d t) \<and>
      one_per_domain (snd (snd (get now d t))) \<and> one_per_domain (snd (clear_all t))) \<and>
   filter (\<lambda>x. domain x = d) (set_entry now d ps t)
     = [\<lparr>domain = d, params_json = ps, timestamp = py_int now\<rparr>] \<and>
   select_where d (set_entry now d ps t)
     = Some \<lparr>domain = d, params_json = ps, timestamp = py_int now\<rparr> \<and>
   (d' \<noteq> d \<longrightarrow> select_where d' (set_entry now d ps t) = select_where d' t) \<and>
   (later - real_of_int (py_int now) < real_of_int CACHE_TTL
      \<longrightarrow> fst (get later d (set_entry now d ps t)) = Some ps)"
proof -
  let ?r = "\<lparr>domain = d, params_json = ps, timestamp = py_int now\<rparr>"
  have sel: "select_where d (set_entry now d ps t) = Some ?r"
    using select_where_insert_or_replace [of ?r t] by (simp add: set_entry_def)
  have rows: "filter (\<lambda>x. domain x = d) (set_entry now d ps t) = [?r]"
    using rows_of_domain_insert_or_replace [of ?r t] by (simp add: set_entry_def)
  have other: "d' \<noteq> d \<longrightarrow> select_where d' (set_entry now d ps t) = select_where d' t"
    using select_where_insert_or_replace_other [of d' ?r t] by (simp add: set_entry_def)
  have inv: "one_per_domain t \<longrightarrow>
      one_per_domain (set_entry now d ps t) \<and> one_per_domain (delete d t) \<and>
      one_per_domain (snd (snd (get now d t))) \<and> one_per_domain (snd (clear_all t))"
    by (simp add: set_entry_def delete_def one_per_domain_insert_or_replace
        one_per_domain_delete_where one_per_domain_get clear_all_def delete_all_def
        one_per_domain_def [of "[]"])
  have init: "one_per_domain (setup_db None)"
    by (simp add: setup_db_def one_per_domain_def)
  have again: "later - real_of_int (py_int now) < real_of_int CACHE_TTL
      \<longrightarrow> fst (get later d (set_entry now d ps t)) = Some ps"
    using sel by (simp add: get_def)
  from init inv rows sel other again show ?thesis by blast
qed

theorem set_replaces_entry_witness:
  "one_per_domain (set_entry 5000.7 ''a.com'' [''q'']
     [\<lparr>domain = ''a.com'', params_json = [''id''], timestamp = 1000\<rparr>,
      \<lparr>domain = ''b.com'', params_json = [], timestamp = 2000\<rparr>]) \<and>
   select_where ''a.com'' (set_entry 5000.7 ''a.com'' [''q'']
     [\<lparr>domain = ''a.com'', params_json = [''id''], timestamp = 1000\<rparr>,
      \<lparr>domain = ''b.com'', params_json = [], timestamp = 2000\<rparr>])
     = Some \<lparr>domain = ''a.com'', params_json = [''q''], timestamp = 5000\<rparr> \<and>
   select_where ''b.com'' (set_entry 5000.7 ''a.com'' [''q'']
     [\<lparr>domain = ''a.com'', params_json = [''id''], timestamp = 1000\<rparr>,
      \<lparr>domain = ''b.com'', params_json = [], timestamp = 2000\<rparr>])
     = Some \<lparr>domain = ''b.com'', params_json = [], timestamp = 2000\<rparr> \<and>
   fst (get 6000 ''a.com'' (set_entry 5000.7 ''a.com'' [''q'']
     [\<lparr>domain = ''a.com'', params_json = [''id''], timestamp = 1000\<rparr>,
      \<lparr>domain = ''b.com'', params_json = [], timestamp = 2000\<rparr>])) = Some [''q'']"
proof -
  let ?t = "[\<lparr>domain = ''a.com'', params_json = [''id''], timestamp = 1000\<rparr>,
             \<lparr>domain = ''b.com'', params_json = [], timestamp = 2000\<rparr>]"
  have inv: "one_per_domain ?t"
    by (simp add: one_per_domain_def)
  have ts: "py_int 5000.7 = 5000"
    by (simp add: py_int_def)
  have ne: "''b.com'' \<noteq> ''a.com''"
    by simp
  have within: "(6000::real) - real_of_int (py_int 5000.7) < real_of_int CACHE_TTL"
    by (simp add: ts CACHE_TTL_def)
  have old: "select_where ''b.com'' ?t
      = Some \<lparr>domain = ''b.com'', params_json = [], timestamp = 2000\<rparr>"
    by (simp add: select_where_def)
  from set_replaces_entry [of ?t "5000.7" "''a.com''" "[''q'']" "''b.com''" 6000]
    inv ne within ts old
  show ?thesis by simp
qed

text \<open>
  C7. \<open>clear_all\<close> returns the number of rows of the table, which is the number of
  domains with an entry when there is one row per domain, and leaves a store with no
  row, on which \<open>get_status\<close> enumerates nothing; on a store of 5 entries it returns 5.
\<close>

theorem clear_all_counts:
  "fst (clear_all t) = length t \<and>
   (one_per_domain t \<longrightarrow> fst (clear_all t) = card (domain ` set t)) \<and>
   snd (clear_all t) = [] \<and>
   get_status now (snd (clear_all t)) = [] \<and>
   (length t = 5 \<longrightarrow> fst (clear_all t) = 5)"
proof -
  have "distinct (map domain t) \<longrightarrow> length t = card (domain ` set t)"
    using distinct_card [of "map domain t"] by simp
  then show ?thesis
    by (simp add: clear_all_def select_count_def delete_all_def get_status_def
        one_per_domain_def)
qed

theorem clear_all_counts_witness:
  "fst (clear_all
     [\<lparr>domain = ''a.com'', params_json = [''id''], timestamp = 1\<rparr>,
      \<lparr>domain = ''b.com'', params_json = [], timestamp = 2\<rparr>,
      \<lparr>domain = ''c.com'', params_json = [''q''], timestamp = 3\<rparr>,
      \<lparr>domain = ''d.com'', params_json = [''p''], timestamp = 4\<rparr>,
      \<lparr>domain = ''e.com'', params_json = [''x'', ''y''], timestamp = 5\<rparr>]) = 5 \<and>
   get_status 10 (snd (clear_all
     [\<lparr>domain = ''a.com'', params_json = [''id''], timestamp = 1\<rparr>,
      \<lparr>domain = ''b.com'', params_json = [], timestamp = 2\<rparr>,
      \<lparr>domain = ''c.com'', params_json = [''q''], timestamp = 3\<rparr>,
      \<lparr>domain = ''d.com'', params_json = [''p''], timestamp = 4\<rparr>,
      \<lparr>domain = ''e.com'', params_json = [''x'', ''y''], timestamp = 5\<rparr>])) = []"
proof -
  let ?t = "[\<lparr>domain = ''a.com'', params_json = [''id''], timestamp = 1\<rparr>,
             \<lparr>domain = ''b.com'', params_json = [], timestamp = 2\<rparr>,
             \<lparr>domain = ''c.com'', params_json = [''q''], timestamp = 3\<rparr>,
             \<lparr>domain = ''d.com'', params_json = [''p''], timestamp = 4\<rparr>,
             \<lparr>domain = ''e.com'', params_json = [''x'', ''y''], timestamp = 5\<rparr>]"
  have five: "length ?t = 5"
    by simp
  from clear_all_counts [of ?t 10]
  have count: "length ?t = 5 \<longrightarrow> fst (clear_all ?t) = 5"
    and status: "get_status 10 (snd (clear_all ?t)) = []"
    by blast+
  from count five have "fst (clear_all ?t) = 5" by blast
  with status show ?thesis by blast
qed

section \<open>Properties of the archive client\<close>

lemma endswith_iff_append: "endswith s suf \<longleftrightarrow> (\<exists>pre. s = pre @ suf)"
proof
  assume "endswith s suf"
  then have "s = take (length s - length suf) s @ suf"
    by (metis append_take_drop_id endswith_def)
  then show "\<exists>pre. s = pre @ suf" ..
next
  assume "\<exists>pre. s = pre @ suf"
  then show "endswith s suf"
    by (auto simp: endswith_def)
qed

lemma index_0_exn: "index_0 v = Inl e \<Longrightarrow> e \<in> {IndexError, KeyError, TypeError}"
  by (cases v rule: index_0.cases) auto

lemma urlparse_netloc_exn: "urlparse_netloc s = Inl e \<Longrightarrow> e = ValueError"
  by (auto simp: urlparse_netloc_def Let_def split: if_splits)

lemma belongs_exn: "belongs d v = Inl e \<Longrightarrow> e \<in> {ValueError, TypeError, AttributeError}"
  by (cases v) (auto simp: belongs_def dest: urlparse_netloc_exn split: sum.splits if_splits)

lemma process_rows_exn:
  "fst (process_rows d rows urls) = Some e
   \<Longrightarrow> e \<in> {IndexError, KeyError, TypeError, ValueError, AttributeError}"
proof (induction rows arbitrary: urls)
  case Nil
  then show ?case by simp
next
  case (Cons row rows)
  then show ?case
    by (auto split: sum.splits bool.splits dest: index_0_exn belongs_exn)
qed

lemma process_rows_append:
  "process_rows d (pre @ rest) urls =
     (case process_rows d pre urls of
        (None, urls') \<Rightarrow> process_rows d rest urls'
      | (Some e, urls') \<Rightarrow> (Some e, urls'))"
  by (induction pre arbitrary: urls) (auto split: sum.splits bool.splits)

lemma process_rows_failing_row:
  "fst (process_rows d [bad] urls0) = Some e \<Longrightarrow> process_rows d (bad # post) urls = (Some e, urls)"
  by (auto split: sum.splits bool.splits)

lemma process_rows_stops:
  assumes "fst (process_rows d pre {}) = None" and "fst (process_rows d [bad] {}) = Some e"
  shows "process_rows d (pre @ bad # post) {} = (Some e, snd (process_rows d pre {}))"
proof -
  obtain urls' where p: "process_rows d pre {} = (None, urls')"
    using assms(1) by (cases "process_rows d pre {}") auto
  show ?thesis
    using process_rows_failing_row [OF assms(2), of post urls']
    by (simp add: process_rows_append p)
qed

lemma handler_of_row_exn:
  assumes "e \<in> {IndexError, KeyError, TypeError, ValueError, AttributeError}"
  shows "(case e of ConnectError \<Rightarrow> Inr (urls, [FetchConnectionFailed d])
          | HTTPStatusError code \<Rightarrow> Inr (urls, [FetchHTTPError code d])
          | _ \<Rightarrow> if is_Exception e then Inr (urls, [FetchUnexpected e]) else Inl e)
         = (Inr (urls, [FetchUnexpected e]) :: exn + (string set \<times> message list))"
  using assms by auto

lemma fetch_returns:
  "is_Exception e \<Longrightarrow>
   \<exists>m. (case e of ConnectError \<Rightarrow> Inr (urls, [FetchConnectionFailed d])
          | HTTPStatusError code \<Rightarrow> Inr (urls, [FetchHTTPError code d])
          | _ \<Rightarrow> if is_Exception e then Inr (urls, [FetchUnexpected e]) else Inl e)
         = (Inr (urls, m) :: exn + (string set \<times> message list))"
  by (cases e) auto

lemma fetch_try_no_sequence:
  assumes "\<forall>xs. data \<noteq> JArr xs" and "\<forall>s. data \<noteq> JStr s"
    and "is_success (status_code r)" and "json_body r = Some data"
  shows "snd (fetch_try d (Responds r)) = {}"
    and "fst (fetch_try d (Responds r)) = None \<or> fst (fetch_try d (Responds r)) = Some TypeError"
  using assms by (cases data; simp add: fetch_try_def raise_for_status_def)+

text \<open>
  What the test of line 55 does ensure: the network location of every URL the loop adds
  ends with the characters of the domain.
\<close>

lemma process_rows_accepts:
  "u \<in> snd (process_rows d rows urls) \<Longrightarrow>
   u \<in> urls \<or> (\<exists>pre. urlparse_netloc u = Inr (pre @ d))"
proof (induction rows arbitrary: urls)
  case Nil
  then show ?case by simp
next
  case (Cons row rows)
  show ?case
  proof (cases "index_0 row")
    case (Inl e)
    with Cons.prems show ?thesis by simp
  next
    case (Inr url)
    show ?thesis
    proof (cases "belongs d url")
      case (Inl e)
      with Inr Cons.prems show ?thesis by simp
    next
      case ok: (Inr b)
      show ?thesis
      proof (cases b)
        case False
        with Inr ok Cons.prems Cons.IH [of urls] show ?thesis by simp
      next
        case True
        with ok obtain s n where s: "url = JStr s" "urlparse_netloc s = Inr n"
          "endswith n d \<or> n = d"
          by (cases url) (auto simp: belongs_def split: sum.splits if_splits)
        then have "\<exists>pre. n = pre @ d"
          by (auto simp: endswith_iff_append)
        with s have new: "\<exists>pre. urlparse_netloc (the_str url) = Inr (pre @ d)"
          by (auto simp: the_str_def)
        from True Inr ok Cons.prems
        have "u \<in> snd (process_rows d rows (insert (the_str url) urls))"
          by simp
        from Cons.IH [OF this] new show ?thesis by auto
      qed
    qed
  qed
qed

text \<open>
  C1. On the response
  \<open>[["original"], ["http://notexample.com/a?x=1"]]\<close> for the domain \<open>example.com\<close> the
  fetch returns the URL, whose network location \<open>notexample.com\<close> neither equals
  \<open>example.com\<close> nor ends with \<open>.example.com\<close>: the test of line 55 is
  \<open>netloc.endswith(domain)\<close>, without the dot.
\<close>

theorem fetch_accepts_notexample:
  "fetch_wayback_urls ''example.com''
     (Responds \<lparr>status_code = 200,
        json_body = Some (JArr [JArr [JStr ''original''],
                                JArr [JStr ''http://notexample.com/a?x=1'']])\<rparr>)
     = Inr ({''http://notexample.com/a?x=1''}, []) \<and>
   urlparse_netloc ''http://notexample.com/a?x=1'' = Inr ''notexample.com'' \<and>
   ''notexample.com'' \<noteq> ''example.com'' \<and>
   \<not> endswith ''notexample.com'' ''.example.com''"
proof -
  have n: "urlparse_netloc ''http://notexample.com/a?x=1'' = Inr ''notexample.com''"
    by (simp add: urlparse_netloc_def split_scheme_def py_find_def c0_control_or_space_def
        unsafe_byte_def ascii_alpha_def scheme_chars_def)
  have b: "belongs ''example.com'' (JStr ''http://notexample.com/a?x=1'') = Inr True"
    by (simp add: belongs_def n endswith_def)
  have "fetch_try ''example.com''
     (Responds \<lparr>status_code = 200,
        json_body = Some (JArr [JArr [JStr ''original''],
                                JArr [JStr ''http://notexample.com/a?x=1'']])\<rparr>)
     = (None, {''http://notexample.com/a?x=1''})"
    by (simp add: fetch_try_def raise_for_status_def is_success_def b the_str_def)
  then show ?thesis
    by (simp add: fetch_wayback_urls_def n endswith_def)
qed

lemma fetch_try_stops_at_row:
  assumes "is_success (status_code r)"
    and "json_body r = Some (JArr (header # pre @ bad # post))"
    and "fst (process_rows d pre {}) = None"
    and "fst (process_rows d [bad] {}) = Some e"
  shows "fetch_try d (Responds r) = (Some e, snd (process_rows d pre {}))"
  using assms process_rows_stops [of d pre bad e post]
  by (simp add: fetch_try_def raise_for_status_def)

lemma fetch_try_responds_exn:
  assumes "fetch_try d (Responds r) = (Some x, urls)"
  shows "is_Exception x"
proof (cases "\<exists>rows. process_rows d rows {} = (Some x, urls)")
  case True
  then obtain rows where "process_rows d rows {} = (Some x, urls)"
    by blast
  then have "fst (process_rows d rows {}) = Some x"
    by simp
  from process_rows_exn [OF this] show ?thesis
    by auto
next
  case False
  with assms have "x \<in> {HTTPStatusError (status_code r), JSONDecodeError, TypeError}"
    by (auto simp: fetch_try_def raise_for_status_def
        split: if_splits option.splits sum.splits
        elim: py_len.elims slice_from_1.elims)
  then show ?thesis
    by auto
qed

lemma fetch_wayback_urls_of_try:
  "fetch_try d h = (Some e, urls) \<Longrightarrow> is_Exception e
   \<Longrightarrow> \<exists>m. fetch_wayback_urls d h = Inr (urls, m)"
  using fetch_returns [of e urls d] by (simp add: fetch_wayback_urls_def)

text \<open>
  C2, as the claim states it, fails: the response
  \<open>[["original"], ["http://example.com/a?x=1"], []]\<close> makes \<open>row[0]\<close> raise
  \<open>IndexError\<close> on its third row, after the URL of the second one has been added, and
  the fetch returns that URL.
\<close>

theorem fetch_partial_set_counterexample:
  "fst (fetch_try ''example.com''
     (Responds \<lparr>status_code = 200,
        json_body = Some (JArr [JArr [JStr ''original''],
                                JArr [JStr ''http://example.com/a?x=1''], JArr []])\<rparr>))
     = Some IndexError \<and>
   fetch_wayback_urls ''example.com''
     (Responds \<lparr>status_code = 200,
        json_body = Some (JArr [JArr [JStr ''original''],
                                JArr [JStr ''http://example.com/a?x=1''], JArr []])\<rparr>)
     = Inr ({''http://example.com/a?x=1''}, [FetchUnexpected IndexError]) \<and>
   {''http://example.com/a?x=1''} \<noteq> ({} :: string set)"
proof -
  have n: "urlparse_netloc ''http://example.com/a?x=1'' = Inr ''example.com''"
    by (simp add: urlparse_netloc_def split_scheme_def py_find_def c0_control_or_space_def
        unsafe_byte_def ascii_alpha_def scheme_chars_def)
  have b: "belongs ''example.com'' (JStr ''http://example.com/a?x=1'') = Inr True"
    by (simp add: belongs_def n endswith_def)
  have t: "fetch_try ''example.com''
     (Responds \<lparr>status_code = 200,
        json_body = Some (JArr [JArr [JStr ''original''],
                                JArr [JStr ''http://example.com/a?x=1''], JArr []])\<rparr>)
     = (Some IndexError, {''http://example.com/a?x=1''})"
    by (simp add: fetch_try_def raise_for_status_def is_success_def b the_str_def)
  then show ?thesis
    by (simp add: fetch_wayback_urls_def)
qed

text \<open>
  C2, amended. No exception that is an \<open>Exception\<close> leaves the fetch: whenever the
  request raises none that is not, the fetch returns a set. That set is empty when the
  request raises, when the status is not 2xx, when the body does not decode, and when the
  decoded body is neither an array nor a string. When the body is an array and a row
  raises after the rows before it were processed, the fetch returns the URLs accepted
  from those rows.
\<close>

theorem fetch_swallows_exceptions:
  "((\<forall>x. h = Raises x \<longrightarrow> is_Exception x)
      \<longrightarrow> (\<exists>urls m. fetch_wayback_urls d h = Inr (urls, m))) \<and>
   (h = Raises e \<and> is_Exception e \<longrightarrow> (\<exists>m. fetch_wayback_urls d h = Inr ({}, m))) \<and>
   (h = Responds r \<and> \<not> is_success (status_code r)
      \<longrightarrow> fetch_wayback_urls d h = Inr ({}, [FetchHTTPError (status_code r) d])) \<and>
   (h = Responds r \<and> is_success (status_code r) \<and> json_body r = None
      \<longrightarrow> fetch_wayback_urls d h = Inr ({}, [FetchUnexpected JSONDecodeError])) \<and>
   (h = Responds r \<and> is_success (status_code r) \<and> json_body r = Some data \<and>
    (\<forall>xs. data \<noteq> JArr xs) \<and> (\<forall>s. data \<noteq> JStr s)
      \<longrightarrow> (\<exists>m. fetch_wayback_urls d h = Inr ({}, m))) \<and>
   (h = Responds r \<and> is_success (status_code r) \<and>
    json_body r = Some (JArr (header # pre @ bad # post)) \<and>
    fst (process_rows d pre {}) = None \<and> fst (process_rows d [bad] {}) = Some e
      \<longrightarrow> fetch_wayback_urls d h = Inr (snd (process_rows d pre {}), [FetchUnexpected e]))"
proof -
  have raised: "h = Raises e \<and> is_Exception e \<longrightarrow> (\<exists>m. fetch_wayback_urls d h = Inr ({}, m))"
    using fetch_wayback_urls_of_try [of d h e "{}"] by (auto simp: fetch_try_def)
  have status: "h = Responds r \<and> \<not> is_success (status_code r)
      \<longrightarrow> fetch_wayback_urls d h = Inr ({}, [FetchHTTPError (status_code r) d])"
    by (simp add: fetch_wayback_urls_def fetch_try_def raise_for_status_def)
  have decode: "h = Responds r \<and> is_success (status_code r) \<and> json_body r = None
      \<longrightarrow> fetch_wayback_urls d h = Inr ({}, [FetchUnexpected JSONDecodeError])"
    by (simp add: fetch_wayback_urls_def fetch_try_def raise_for_status_def)
  have shape: "h = Responds r \<and> is_success (status_code r) \<and> json_body r = Some data \<and>
    (\<forall>xs. data \<noteq> JArr xs) \<and> (\<forall>s. data \<noteq> JStr s)
      \<longrightarrow> (\<exists>m. fetch_wayback_urls d h = Inr ({}, m))"
  proof (intro impI, elim conjE)
    assume a: "h = Responds r" "is_success (status_code r)" "json_body r = Some data"
      "\<forall>xs. data \<noteq> JArr xs" "\<forall>s. data \<noteq> JStr s"
    from fetch_try_no_sequence [OF a(4) a(5) a(2) a(3), of d]
    have "fetch_try d h = (None, {}) \<or> fetch_try d h = (Some TypeError, {})"
      using a(1) by (cases "fetch_try d (Responds r)") auto
    then show "\<exists>m. fetch_wayback_urls d h = Inr ({}, m)"
      by (auto simp: fetch_wayback_urls_def)
  qed
  have row: "h = Responds r \<and> is_success (status_code r) \<and>
    json_body r = Some (JArr (header # pre @ bad # post)) \<and>
    fst (process_rows d pre {}) = None \<and> fst (process_rows d [bad] {}) = Some e
      \<longrightarrow> fetch_wayback_urls d h = Inr (snd (process_rows d pre {}), [FetchUnexpected e])"
  proof (intro impI, elim conjE)
    assume a: "h = Responds r" "is_success (status_code r)"
      "json_body r = Some (JArr (header # pre @ bad # post))"
      "fst (process_rows d pre {}) = None" "fst (process_rows d [bad] {}) = Some e"
    from fetch_try_stops_at_row [OF a(2) a(3) a(4) a(5)]
    have t: "fetch_try d h = (Some e, snd (process_rows d pre {}))"
      using a(1) by simp
    from process_rows_exn [OF a(5)]
    have "e \<in> {IndexError, KeyError, TypeError, ValueError, AttributeError}" .
    from handler_of_row_exn [OF this, of "snd (process_rows d pre {})" d] t
    show "fetch_wayback_urls d h = Inr (snd (process_rows d pre {}), [FetchUnexpected e])"
      by (simp add: fetch_wayback_urls_def)
  qed
  have total: "(\<forall>x. h = Raises x \<longrightarrow> is_Exception x)
      \<longrightarrow> (\<exists>urls m. fetch_wayback_urls d h = Inr (urls, m))"
  proof
    assume ok: "\<forall>x. h = Raises x \<longrightarrow> is_Exception x"
    show "\<exists>urls m. fetch_wayback_urls d h = Inr (urls, m)"
    proof (cases "fetch_try d h")
      case (Pair raised urls)
      show ?thesis
      proof (cases raised)
        case None
        with Pair show ?thesis by (simp add: fetch_wayback_urls_def)
      next
        case (Some x)
        have "is_Exception x"
        proof (cases h)
          case (Raises y)
          with Pair Some ok show ?thesis by (simp add: fetch_try_def)
        next
          case (Responds r')
          with Pair Some show ?thesis
            using fetch_try_responds_exn [of d r' x urls] by simp
        qed
        with Pair Some fetch_wayback_urls_of_try [of d h x urls] show ?thesis by blast
      qed
    qed
  qed
  from total raised status decode shape row show ?thesis by blast
qed

theorem fetch_swallows_exceptions_witness:
  "(\<exists>m. fetch_wayback_urls ''example.com'' (Raises ConnectError) = Inr ({}, m)) \<and>
   fetch_wayback_urls ''example.com'' (Responds \<lparr>status_code = 503, json_body = None\<rparr>)
     = Inr ({}, [FetchHTTPError 503 ''example.com'']) \<and>
   fetch_wayback_urls ''example.com'' (Responds \<lparr>status_code = 200, json_body = None\<rparr>)
     = Inr ({}, [FetchUnexpected JSONDecodeError]) \<and>
   (\<exists>m. fetch_wayback_urls ''example.com''
      (Responds \<lparr>status_code = 200, json_body = Some (JNum 7)\<rparr>) = Inr ({}, m)) \<and>
   fetch_wayback_urls ''example.com''
     (Responds \<lparr>status_code = 200,
        json_body = Some (JArr [JArr [JStr ''original''],
                                JArr [JStr ''http://example.com/a?x=1''], JArr []])\<rparr>)
     = Inr ({''http://example.com/a?x=1''}, [FetchUnexpected IndexError])"
proof -
  let ?d = "''example.com''"
  let ?good = "JArr [JStr ''http://example.com/a?x=1'']"
  let ?r = "\<lparr>status_code = 200,
        json_body = Some (JArr [JArr [JStr ''original''], ?good, JArr []])\<rparr>"
  have n: "urlparse_netloc ''http://example.com/a?x=1'' = Inr ''example.com''"
    by (simp add: urlparse_netloc_def split_scheme_def py_find_def c0_control_or_space_def
        unsafe_byte_def ascii_alpha_def scheme_chars_def)
  have b: "belongs ?d (JStr ''http://example.com/a?x=1'') = Inr True"
    by (simp add: belongs_def n endswith_def)
  have pre: "process_rows ?d [?good] {} = (None, {''http://example.com/a?x=1''})"
    by (simp add: b the_str_def)
  have bad: "fst (process_rows ?d [JArr []] {}) = Some IndexError"
    by simp
  have c1: "\<exists>m. fetch_wayback_urls ?d (Raises ConnectError) = Inr ({}, m)"
    using fetch_swallows_exceptions [of "Raises ConnectError" ?d ConnectError] by simp
  have c2: "fetch_wayback_urls ?d (Responds \<lparr>status_code = 503, json_body = None\<rparr>)
     = Inr ({}, [FetchHTTPError 503 ?d])"
    using fetch_swallows_exceptions
      [of "Responds \<lparr>status_code = 503, json_body = None\<rparr>" ?d _
          "\<lparr>status_code = 503, json_body = None\<rparr>"]
    by (simp add: is_success_def)
  have c3: "fetch_wayback_urls ?d (Responds \<lparr>status_code = 200, json_body = None\<rparr>)
     = Inr ({}, [FetchUnexpected JSONDecodeError])"
    using fetch_swallows_exceptions
      [of "Responds \<lparr>status_code = 200, json_body = None\<rparr>" ?d _
          "\<lparr>status_code = 200, json_body = None\<rparr>"]
    by (simp add: is_success_def)
  have c4: "\<exists>m. fetch_wayback_urls ?d
      (Responds \<lparr>status_code = 200, json_body = Some (JNum 7)\<rparr>) = Inr ({}, m)"
    using fetch_swallows_exceptions
      [of "Responds \<lparr>status_code = 200, json_body = Some (JNum 7)\<rparr>" ?d _
          "\<lparr>status_code = 200, json_body = Some (JNum 7)\<rparr>" "JNum 7"]
    by (simp add: is_success_def)
  have c5: "fetch_wayback_urls ?d (Responds ?r)
     = Inr ({''http://example.com/a?x=1''}, [FetchUnexpected IndexError])"
    using fetch_swallows_exceptions
      [of "Responds ?r" ?d IndexError ?r _ "JArr [JStr ''original'']" "[?good]" "JArr []" "[]"]
      pre bad
    by (simp add: is_success_def)
  from c1 c2 c3 c4 c5 show ?thesis by blast
qed

section \<open>Properties of the retry decorator\<close>

lemma default_exceptions_iff:
  "default_exceptions e \<longleftrightarrow> e = ConnectError \<or> e = TimeoutError \<or> (\<exists>code. e = HTTPStatusError code)"
  by (cases e) (simp_all add: default_exceptions_def)

text \<open>While the attempts fail with an exception of the tuple and are not the last, the loop goes on.\<close>

lemma wrapper_loop_retries:
  assumes "\<forall>j. a \<le> j \<and> j < k \<longrightarrow> fails_retryable excs func j"
    and "a \<le> k" and "int k < max_retries" and "calls s = a"
  shows "\<exists>s'. wrapper_loop max_retries delay excs func a s
              = wrapper_loop max_retries delay excs func k s' \<and>
              calls s' = k \<and> slept s' = slept s + delay * int (k - a)"
  using assms
proof (induction k)
  case 0
  then show ?case by (intro exI [of _ s]) simp
next
  case (Suc k)
  show ?case
  proof (cases "a = Suc k")
    case True
    with Suc.prems show ?thesis by (intro exI [of _ s]) simp
  next
    case False
    with Suc.prems have le: "a \<le> k" and lt: "int k < max_retries" and more: "int k < max_retries - 1"
      by simp_all
    from Suc.prems have "\<forall>j. a \<le> j \<and> j < k \<longrightarrow> fails_retryable excs func j"
      by simp
    from Suc.IH [OF this le lt Suc.prems(4)]
    obtain s' where s': "wrapper_loop max_retries delay excs func a s
        = wrapper_loop max_retries delay excs func k s'"
      "calls s' = k" "slept s' = slept s + delay * int (k - a)"
      by blast
    from Suc.prems le have "fails_retryable excs func k"
      by simp
    then obtain e where e: "func k = Inl e" "excs e"
      by (auto simp: fails_retryable_def split: sum.splits)
    let ?s'' = "s'\<lparr>calls := calls s' + 1, slept := slept s' + delay,
        printed := printed s' @ [RetryWarning (k + 1) max_retries e delay]\<rparr>"
    have step: "wrapper_loop max_retries delay excs func k s'
        = wrapper_loop max_retries delay excs func (Suc k) ?s''"
      using lt more e s'(2)
      by (subst wrapper_loop.simps) (simp add: Let_def)
    have "calls ?s'' = Suc k"
      using s'(2) by simp
    moreover have "slept ?s'' = slept s + delay * int (Suc k - a)"
      using s'(3) le by (simp add: Suc_diff_le algebra_simps)
    ultimately show ?thesis
      using s'(1) step by metis
  qed
qed

lemma retry_reaches:
  assumes "\<forall>j < k. fails_retryable excs func j" and "int k < max_retries"
    and "excs = (case exceptions of None \<Rightarrow> default_exceptions | Some es \<Rightarrow> es)"
  shows "\<exists>s'. retry_on_failure max_retries delay exceptions func
              = wrapper_loop max_retries delay excs func k s' \<and>
              calls s' = k \<and> slept s' = delay * int k"
proof -
  let ?s = "\<lparr>calls = 0, slept = 0, printed = []\<rparr>"
  from assms(1) have "\<forall>j. 0 \<le> j \<and> j < k \<longrightarrow> fails_retryable excs func j"
    by simp
  from wrapper_loop_retries [OF this _ assms(2), of ?s delay]
  show ?thesis
    by (simp add: retry_on_failure_def assms(3))
qed

text \<open>
  C3, for a budget of at least one attempt. With the default tuple the wrapper retries on
  \<open>ConnectError\<close>, \<open>HTTPStatusError\<close> and \<open>TimeoutError\<close>. If every one of the
  \<open>max_retries\<close> calls fails with an exception of the tuple, the wrapper raises the
  exception of the last call, after exactly \<open>max_retries\<close> calls. If call \<open>k\<close>, reached
  because the calls before it failed with exceptions of the tuple, raises an exception
  outside the tuple, the wrapper raises that exception and \<open>k + 1\<close> calls were made. If
  call \<open>k\<close> returns \<open>v\<close>, the wrapper returns \<open>v\<close>. In each case it has slept \<open>delay\<close>
  once between two calls.
\<close>

theorem retry_on_failure_contract:
  "excs = (case exceptions of None \<Rightarrow> default_exceptions | Some es \<Rightarrow> es) \<longrightarrow>
   (default_exceptions e \<longleftrightarrow>
      e = ConnectError \<or> e = TimeoutError \<or> (\<exists>code. e = HTTPStatusError code)) \<and>
   (0 < max_retries \<and> (\<forall>j. int j < max_retries \<longrightarrow> fails_retryable excs func j)
      \<longrightarrow> (\<exists>x. func (nat max_retries - 1) = Inl x \<and>
               fst (retry_on_failure max_retries delay exceptions func) = Inl x) \<and>
          calls (snd (retry_on_failure max_retries delay exceptions func)) = nat max_retries \<and>
          slept (snd (retry_on_failure max_retries delay exceptions func))
            = delay * (max_retries - 1)) \<and>
   (int k < max_retries \<and> (\<forall>j < k. fails_retryable excs func j) \<and>
    func k = Inl e \<and> \<not> excs e
      \<longrightarrow> fst (retry_on_failure max_retries delay exceptions func) = Inl e \<and>
          calls (snd (retry_on_failure max_retries delay exceptions func)) = k + 1 \<and>
          slept (snd (retry_on_failure max_retries delay exceptions func)) = delay * int k) \<and>
   (int k < max_retries \<and> (\<forall>j < k. fails_retryable excs func j) \<and> func k = Inr v
      \<longrightarrow> fst (retry_on_failure max_retries delay exceptions func) = Inr (Some v) \<and>
          calls (snd (retry_on_failure max_retries delay exceptions func)) = k + 1 \<and>
          slept (snd (retry_on_failure max_retries delay exceptions func)) = delay * int k)"
proof
  assume excs: "excs = (case exceptions of None \<Rightarrow> default_exceptions | Some es \<Rightarrow> es)"
  let ?R = "retry_on_failure max_retries delay exceptions func"
  have exhausted: "0 < max_retries \<and> (\<forall>j. int j < max_retries \<longrightarrow> fails_retryable excs func j)
      \<longrightarrow> (\<exists>x. func (nat max_retries - 1) = Inl x \<and> fst ?R = Inl x) \<and>
          calls (snd ?R) = nat max_retries \<and> slept (snd ?R) = delay * (max_retries - 1)"
  proof (intro impI, elim conjE)
    assume pos: "0 < max_retries"
      and all: "\<forall>j. int j < max_retries \<longrightarrow> fails_retryable excs func j"
    let ?k = "nat max_retries - 1"
    from pos have lt: "int ?k < max_retries" and last: "\<not> int ?k < max_retries - 1"
      by simp_all
    from all lt have before: "\<forall>j < ?k. fails_retryable excs func j"
      by simp
    from retry_reaches [OF before lt excs, of delay]
    obtain s' where s': "?R = wrapper_loop max_retries delay excs func ?k s'"
      "calls s' = ?k" "slept s' = delay * int ?k"
      by blast
    from all lt have "fails_retryable excs func ?k"
      by blast
    then obtain x where x: "func ?k = Inl x" "excs x"
      by (auto simp: fails_retryable_def split: sum.splits)
    have "wrapper_loop max_retries delay excs func ?k s'
        = (Inl x, s'\<lparr>calls := calls s' + 1,
                      printed := printed s' @ [RetryFailed max_retries]\<rparr>)"
      using lt last x s'(2)
      by (subst wrapper_loop.simps) (simp add: Let_def)
    with s' x pos show "(\<exists>x. func ?k = Inl x \<and> fst ?R = Inl x) \<and>
          calls (snd ?R) = nat max_retries \<and> slept (snd ?R) = delay * (max_retries - 1)"
      by (simp add: of_nat_diff)
  qed
  have other: "int k < max_retries \<and> (\<forall>j < k. fails_retryable excs func j) \<and>
      func k = Inl e \<and> \<not> excs e
      \<longrightarrow> fst ?R = Inl e \<and> calls (snd ?R) = k + 1 \<and> slept (snd ?R) = delay * int k"
  proof (intro impI, elim conjE)
    assume lt: "int k < max_retries" and before: "\<forall>j < k. fails_retryable excs func j"
      and e: "func k = Inl e" "\<not> excs e"
    from retry_reaches [OF before lt excs, of delay]
    obtain s' where s': "?R = wrapper_loop max_retries delay excs func k s'"
      "calls s' = k" "slept s' = delay * int k"
      by blast
    have "wrapper_loop max_retries delay excs func k s' = (Inl e, s'\<lparr>calls := calls s' + 1\<rparr>)"
      using lt e s'(2)
      by (subst wrapper_loop.simps) (simp add: Let_def)
    with s' show "fst ?R = Inl e \<and> calls (snd ?R) = k + 1 \<and> slept (snd ?R) = delay * int k"
      by simp
  qed
  have success: "int k < max_retries \<and> (\<forall>j < k. fails_retryable excs func j) \<and> func k = Inr v
      \<longrightarrow> fst ?R = Inr (Some v) \<and> calls (snd ?R) = k + 1 \<and> slept (snd ?R) = delay * int k"
  proof (intro impI, elim conjE)
    assume lt: "int k < max_retries" and before: "\<forall>j < k. fails_retryable excs func j"
      and v: "func k = Inr v"
    from retry_reaches [OF before lt excs, of delay]
    obtain s' where s': "?R = wrapper_loop max_retries delay excs func k s'"
      "calls s' = k" "slept s' = delay * int k"
      by blast
    have "wrapper_loop max_retries delay excs func k s' = (Inr (Some v), s'\<lparr>calls := calls s' + 1\<rparr>)"
      using lt v s'(2)
      by (subst wrapper_loop.simps) (simp add: Let_def)
    with s' show "fst ?R = Inr (Some v) \<and> calls (snd ?R) = k + 1 \<and> slept (snd ?R) = delay * int k"
      by simp
  qed
  from exhausted other success default_exceptions_iff [of e]
  show "(default_exceptions e \<longleftrightarrow>
      e = ConnectError \<or> e = TimeoutError \<or> (\<exists>code. e = HTTPStatusError code)) \<and>
   (0 < max_retries \<and> (\<forall>j. int j < max_retries \<longrightarrow> fails_retryable excs func j)
      \<longrightarrow> (\<exists>x. func (nat max_retries - 1) = Inl x \<and> fst ?R = Inl x) \<and>
          calls (snd ?R) = nat max_retries \<and> slept (snd ?R) = delay * (max_retries - 1)) \<and>
   (int k < max_retries \<and> (\<forall>j < k. fails_retryable excs func j) \<and>
    func k = Inl e \<and> \<not> excs e
      \<longrightarrow> fst ?R = Inl e \<and> calls (snd ?R) = k + 1 \<and> slept (snd ?R) = delay * int k) \<and>
   (int k < max_retries \<and> (\<forall>j < k. fails_retryable excs func j) \<and> func k = Inr v
      \<longrightarrow> fst ?R = Inr (Some v) \<and> calls (snd ?R) = k + 1 \<and> slept (snd ?R) = delay * int k)"
    by blast
qed
theorem retry_on_failure_contract_witness:
  "fst (retry_on_failure 3 2 None (\<lambda>k. Inl (HTTPStatusError (500 + k)) :: exn + nat))
     = Inl (HTTPStatusError 502) \<and>
   calls (snd (retry_on_failure 3 2 None (\<lambda>k. Inl (HTTPStatusError (500 + k)) :: exn + nat))) = 3 \<and>
   fst (retry_on_failure 3 2 None
          (\<lambda>k. if k < 1 then Inl ConnectError else Inl ValueError :: exn + nat))
     = Inl ValueError \<and>
   calls (snd (retry_on_failure 3 2 None
          (\<lambda>k. if k < 1 then Inl ConnectError else Inl ValueError :: exn + nat))) = 2 \<and>
   fst (retry_on_failure 3 2 None
          (\<lambda>k. if k < 2 then Inl TimeoutError else Inr (7::nat)))
     = Inr (Some 7) \<and>
   slept (snd (retry_on_failure 3 2 None
          (\<lambda>k. if k < 2 then Inl TimeoutError else Inr (7::nat)))) = 4"
proof -
  let ?f = "\<lambda>k. Inl (HTTPStatusError (500 + k)) :: exn + nat"
  let ?g = "\<lambda>k. if k < 1 then Inl ConnectError else Inl ValueError :: exn + nat"
  let ?h = "\<lambda>k::nat. if k < 2 then Inl TimeoutError else Inr (7::nat)"
  have d: "default_exceptions = (case None of None \<Rightarrow> default_exceptions | Some es \<Rightarrow> es)"
    by simp
  have f: "\<forall>j. int j < 3 \<longrightarrow> fails_retryable default_exceptions ?f j"
    by (simp add: fails_retryable_def default_exceptions_def)
  have g: "\<forall>j < 1. fails_retryable default_exceptions ?g j"
    by (simp add: fails_retryable_def default_exceptions_def)
  have gv: "\<not> default_exceptions ValueError"
    by (simp add: default_exceptions_def)
  have h: "\<forall>j < 2. fails_retryable default_exceptions ?h j"
    by (simp add: fails_retryable_def default_exceptions_def)
  from retry_on_failure_contract
    [where excs = default_exceptions and exceptions = None and max_retries = 3
       and func = ?f and delay = 2] d f
  have a: "fst (retry_on_failure 3 2 None ?f) = Inl (HTTPStatusError 502)"
    and b: "calls (snd (retry_on_failure 3 2 None ?f)) = 3"
    by auto
  from retry_on_failure_contract
    [where excs = default_exceptions and exceptions = None and max_retries = 3
       and func = ?g and delay = 2 and k = 1 and e = ValueError] d g gv
  have c: "fst (retry_on_failure 3 2 None ?g) = Inl ValueError"
    and e: "calls (snd (retry_on_failure 3 2 None ?g)) = 2"
    by auto
  from retry_on_failure_contract
    [where excs = default_exceptions and exceptions = None and max_retries = 3
       and func = ?h and delay = 2 and k = 2 and v = 7] d h
  have i: "fst (retry_on_failure 3 2 None ?h) = Inr (Some 7)"
    and j: "slept (snd (retry_on_failure 3 2 None ?h)) = 4"
    by auto
  from a b c e i j show ?thesis by blast
qed

text \<open>With a budget of no attempt the loop body never runs: no call is made.\<close>

lemma retry_on_failure_no_budget:
  "max_retries \<le> 0 \<Longrightarrow>
   retry_on_failure max_retries delay exceptions func
     = (Inr None, \<lparr>calls = 0, slept = 0, printed = []\<rparr>)"
  by (simp add: retry_on_failure_def wrapper_loop.simps)

section \<open>Properties of the command line\<close>

lemma scan_miss:
  assumes "\<not> truthy (fst (get (t_get env) (normalise_domain domain0) t))"
  shows "scan ex mg env domain0 fmt t =
     (let d = normalise_domain domain0;
          m1 = fst (snd (get (t_get env) d t));
          t1 = snd (snd (get (t_get env) d t))
      in case fetch_wayback_urls d (http env) of
           Inl e \<Rightarrow> \<lparr>outcome = Raised e, console = m1 @ [Scanning d], store = t1,
                      fetch_called = True\<rparr>
         | Inr (urls, m2) \<Rightarrow>
             if urls = {}
             then \<lparr>outcome = Exit 1, console = m1 @ [Scanning d] @ m2 @ [NoURLsFound d],
                   store = t1, fetch_called = True\<rparr>
             else
               (let m3 = m1 @ [Scanning d] @ m2 @ [FoundURLs (card urls)]
                in case load_builtin_params (builtin_file env) of
                     (Inl e, m4) \<Rightarrow> \<lparr>outcome = Raised e, console = m3 @ m4, store = t1,
                                      fetch_called = True\<rparr>
                   | (Inr builtin_params, m4) \<Rightarrow>
                       \<lparr>outcome = Returned,
                        console = m3 @ m4 @ output_results d fmt
                                    (mg (\<Union> (ex ` urls)) builtin_params),
                        store = set_entry (t_set env) d
                                    (mg (\<Union> (ex ` urls)) builtin_params) t1,
                        fetch_called = True\<rparr>))"
proof -
  obtain c m1 t1 where "get (t_get env) (normalise_domain domain0) t = (c, m1, t1)"
    by (cases "get (t_get env) (normalise_domain domain0) t") auto
  with assms show ?thesis
    by (simp add: scan_def Let_def split: sum.splits prod.splits)
qed

lemma scan_hit:
  assumes "truthy (fst (get (t_get env) (normalise_domain domain0) t))"
  shows "scan ex mg env domain0 fmt t =
     \<lparr>outcome = Returned,
      console = fst (snd (get (t_get env) (normalise_domain domain0) t)) @
                output_results (normalise_domain domain0) fmt
                  (the (fst (get (t_get env) (normalise_domain domain0) t))),
      store = snd (snd (get (t_get env) (normalise_domain domain0) t)),
      fetch_called = False\<rparr>"
proof -
  obtain c m1 t1 where "get (t_get env) (normalise_domain domain0) t = (c, m1, t1)"
    by (cases "get (t_get env) (normalise_domain domain0) t") auto
  with assms show ?thesis
    by (simp add: scan_def Let_def split: sum.splits prod.splits)
qed

lemma get_fresh:
  "select_where d t = Some r \<Longrightarrow> now - real_of_int (timestamp r) < real_of_int CACHE_TTL
   \<Longrightarrow> get now d t = (Some (params_json r), [CacheUsing d], t)"
  by (simp add: get_def)

text \<open>
  C5. When the cache gives nothing for the domain and the fetch returns no URL, \<open>scan\<close>
  prints that no URLs were found, as its last message, and ends with
  \<open>typer.Exit(code=1)\<close>: process exit code 1, no exception. A request that raises an
  \<open>Exception\<close> is such a case.
\<close>

theorem scan_exits_without_urls:
  "(fst (get (t_get env) (normalise_domain domain0) t) = None \<and>
    fetch_wayback_urls (normalise_domain domain0) (http env) = Inr ({}, m)
      \<longrightarrow> outcome (scan ex mg env domain0 fmt t) = Exit 1 \<and>
          console (scan ex mg env domain0 fmt t)
            = fst (snd (get (t_get env) (normalise_domain domain0) t)) @
              [Scanning (normalise_domain domain0)] @ m @
              [NoURLsFound (normalise_domain domain0)] \<and>
          fetch_called (scan ex mg env domain0 fmt t)) \<and>
   (fst (get (t_get env) (normalise_domain domain0) t) = None \<and>
    http env = Raises e \<and> is_Exception e
      \<longrightarrow> outcome (scan ex mg env domain0 fmt t) = Exit 1 \<and>
          last (console (scan ex mg env domain0 fmt t))
            = NoURLsFound (normalise_domain domain0))"
proof -
  let ?d = "normalise_domain domain0"
  have empty: "fst (get (t_get env) ?d t) = None \<and>
    fetch_wayback_urls ?d (http env) = Inr ({}, m)
      \<longrightarrow> outcome (scan ex mg env domain0 fmt t) = Exit 1 \<and>
          console (scan ex mg env domain0 fmt t)
            = fst (snd (get (t_get env) ?d t)) @ [Scanning ?d] @ m @ [NoURLsFound ?d] \<and>
          fetch_called (scan ex mg env domain0 fmt t)"
    by (simp add: scan_miss truthy_def Let_def)
  have raised: "fst (get (t_get env) ?d t) = None \<and> http env = Raises e \<and> is_Exception e
      \<longrightarrow> outcome (scan ex mg env domain0 fmt t) = Exit 1 \<and>
          last (console (scan ex mg env domain0 fmt t)) = NoURLsFound ?d"
  proof (intro impI, elim conjE)
    assume miss: "fst (get (t_get env) ?d t) = None"
      and h: "http env = Raises e" and e: "is_Exception e"
    have "fetch_try ?d (http env) = (Some e, {})"
      by (simp add: h fetch_try_def)
    from fetch_wayback_urls_of_try [OF this e]
    obtain m' where "fetch_wayback_urls ?d (http env) = Inr ({}, m')" ..
    with miss show "outcome (scan ex mg env domain0 fmt t) = Exit 1 \<and>
          last (console (scan ex mg env domain0 fmt t)) = NoURLsFound ?d"
      by (simp add: scan_miss truthy_def Let_def)
  qed
  from empty raised show ?thesis by blast
qed

text \<open>
  C10. With a fresh entry whose list is empty, \<open>scan\<close> does not stop at the cache: it
  announces the scan and calls the fetch, and, when the fetch returns URLs and the
  wordlist loads, it overwrites the entry with the newly merged list. With a fresh entry
  whose list is not empty it returns without calling the fetch and leaves the store as
  it is.
\<close>

theorem scan_refetches_on_empty_cached_list:
  "(select_where (normalise_domain domain0) t = Some r \<and>
    t_get env - real_of_int (timestamp r) < real_of_int CACHE_TTL \<and> params_json r = []
      \<longrightarrow> fetch_called (scan ex mg env domain0 fmt t) \<and>
          Scanning (normalise_domain domain0) \<in> set (console (scan ex mg env domain0 fmt t))) \<and>
   (select_where (normalise_domain domain0) t = Some r \<and>
    t_get env - real_of_int (timestamp r) < real_of_int CACHE_TTL \<and> params_json r = [] \<and>
    fetch_wayback_urls (normalise_domain domain0) (http env) = Inr (urls, m) \<and> urls \<noteq> {} \<and>
    builtin_file env = Inr builtin
      \<longrightarrow> outcome (scan ex mg env domain0 fmt t) = Returned \<and>
          store (scan ex mg env domain0 fmt t)
            = set_entry (t_set env) (normalise_domain domain0) (mg (\<Union> (ex ` urls)) builtin) t) \<and>
   (select_where (normalise_domain domain0) t = Some r \<and>
    t_get env - real_of_int (timestamp r) < real_of_int CACHE_TTL \<and> params_json r \<noteq> []
      \<longrightarrow> \<not> fetch_called (scan ex mg env domain0 fmt t) \<and>
          outcome (scan ex mg env domain0 fmt t) = Returned \<and>
          store (scan ex mg env domain0 fmt t) = t)"
proof -
  let ?d = "normalise_domain domain0"
  let ?fresh = "select_where ?d t = Some r \<and>
    t_get env - real_of_int (timestamp r) < real_of_int CACHE_TTL"
  have refetch: "?fresh \<and> params_json r = []
      \<longrightarrow> fetch_called (scan ex mg env domain0 fmt t) \<and>
          Scanning ?d \<in> set (console (scan ex mg env domain0 fmt t))"
    by (auto simp: scan_miss get_fresh truthy_def Let_def split: sum.splits prod.splits)
  have overwrite: "?fresh \<and> params_json r = [] \<and>
    fetch_wayback_urls ?d (http env) = Inr (urls, m) \<and> urls \<noteq> {} \<and>
    builtin_file env = Inr builtin
      \<longrightarrow> outcome (scan ex mg env domain0 fmt t) = Returned \<and>
          store (scan ex mg env domain0 fmt t)
            = set_entry (t_set env) ?d (mg (\<Union> (ex ` urls)) builtin) t"
    by (auto simp: scan_miss get_fresh truthy_def Let_def load_builtin_params_def)
  have hit: "?fresh \<and> params_json r \<noteq> []
      \<longrightarrow> \<not> fetch_called (scan ex mg env domain0 fmt t) \<and>
          outcome (scan ex mg env domain0 fmt t) = Returned \<and>
          store (scan ex mg env domain0 fmt t) = t"
    by (auto simp: scan_hit get_fresh truthy_def)
  from refetch overwrite hit show ?thesis by blast
qed
text \<open>Evaluations shared by the instances below.\<close>

lemma normalise_domain_example: "normalise_domain ''https://Example.com '' = ''example.com''"
  by (simp add: normalise_domain_def lower_def lower_char_def strip_def is_space_def
      replace_def startswith_def)

lemma netloc_example: "urlparse_netloc ''http://example.com/a?x=1'' = Inr ''example.com''"
  by (simp add: urlparse_netloc_def split_scheme_def py_find_def c0_control_or_space_def
      unsafe_byte_def ascii_alpha_def scheme_chars_def)

lemma fetch_header_only:
  "fetch_wayback_urls ''example.com''
     (Responds \<lparr>status_code = 200, json_body = Some (JArr [JArr [JStr ''original'']])\<rparr>)
     = Inr ({}, [])"
  by (simp add: fetch_wayback_urls_def fetch_try_def raise_for_status_def is_success_def)

lemma fetch_one_row:
  "fetch_wayback_urls ''example.com''
     (Responds \<lparr>status_code = 200,
        json_body = Some (JArr [JArr [JStr ''original''],
                                JArr [JStr ''http://example.com/a?x=1'']])\<rparr>)
     = Inr ({''http://example.com/a?x=1''}, [])"
  by (simp add: fetch_wayback_urls_def fetch_try_def raise_for_status_def is_success_def
      belongs_def netloc_example endswith_def the_str_def)

lemma get_empty_store: "get now d [] = (None, [], [])"
  by (simp add: get_def select_where_def)

text \<open>
  C8, as the claim states it, fails: a packaged file whose bytes are no text is not valid
  JSON, and \<open>json.load\<close> raises \<open>UnicodeDecodeError\<close> on it, which neither \<open>except\<close>
  clause catches. The loader raises it, and a scan that reaches the loader ends with it.
\<close>

theorem load_builtin_params_not_text_counterexample:
  "\<not> valid_json NotText \<and>
   load_builtin_params (open_and_load NotText) = (Inl UnicodeDecodeError, []) \<and>
   outcome (scan (\<lambda>u. {u}) (\<lambda>s b. [''q''])
     \<lparr>http = Responds \<lparr>status_code = 200,
          json_body = Some (JArr [JArr [JStr ''original''],
                                  JArr [JStr ''http://example.com/a?x=1'']])\<rparr>,
      builtin_file = open_and_load NotText, t_get = 100, t_set = 101\<rparr>
     ''https://Example.com '' None []) = Raised UnicodeDecodeError"
proof -
  let ?env = "\<lparr>http = Responds \<lparr>status_code = 200,
          json_body = Some (JArr [JArr [JStr ''original''],
                                  JArr [JStr ''http://example.com/a?x=1'']])\<rparr>,
      builtin_file = open_and_load NotText, t_get = 100, t_set = 101\<rparr>"
  have l: "load_builtin_params (open_and_load NotText) = (Inl UnicodeDecodeError, [])"
    by (simp add: load_builtin_params_def open_and_load_def)
  have miss: "\<not> truthy (fst (get (t_get ?env) (normalise_domain ''https://Example.com '') []))"
    by (simp add: get_empty_store truthy_def)
  have "outcome (scan (\<lambda>u. {u}) (\<lambda>s b. [''q'']) ?env ''https://Example.com '' None [])
      = Raised UnicodeDecodeError"
    by (simp add: scan_miss [OF miss] normalise_domain_example fetch_one_row l Let_def)
  with l show ?thesis
    by (simp add: valid_json_def)
qed

text \<open>
  C8, amended. When the packaged file is absent, or is text that the parser rejects as
  no JSON document, the loader returns the empty list and prints one message; no
  exception leaves it, and a scan that reaches the loader goes on: it returns, having
  stored the list merged with the empty wordlist. On every file the loader does this:
  a JSON document gives its value and no message; bytes that are no text make it raise
  \<open>UnicodeDecodeError\<close>, and nesting beyond the recursion limit \<open>RecursionError\<close>.
\<close>

theorem load_builtin_params_on_file:
  "load_builtin_params (open_and_load f) =
     (case f of
        Absent \<Rightarrow> (Inr (JArr []), [BuiltinNotFound])
      | NotJSON \<Rightarrow> (Inr (JArr []), [BuiltinParseFailed])
      | NotText \<Rightarrow> (Inl UnicodeDecodeError, [])
      | TooDeep well_formed \<Rightarrow> (Inl RecursionError, [])
      | Document v \<Rightarrow> (Inr v, [])) \<and>
   (f = Absent \<or> f = NotJSON
      \<longrightarrow> (\<exists>msg. load_builtin_params (open_and_load f) = (Inr (JArr []), [msg]))) \<and>
   (\<not> truthy (fst (get (t_get env) (normalise_domain domain0) t)) \<and>
    fetch_wayback_urls (normalise_domain domain0) (http env) = Inr (urls, m) \<and> urls \<noteq> {} \<and>
    builtin_file env = open_and_load f \<and> (f = Absent \<or> f = NotJSON)
      \<longrightarrow> outcome (scan ex mg env domain0 fmt t) = Returned \<and>
          (BuiltinNotFound \<in> set (console (scan ex mg env domain0 fmt t)) \<or>
           BuiltinParseFailed \<in> set (console (scan ex mg env domain0 fmt t))) \<and>
          store (scan ex mg env domain0 fmt t)
            = set_entry (t_set env) (normalise_domain domain0) (mg (\<Union> (ex ` urls)) (JArr []))
                (snd (snd (get (t_get env) (normalise_domain domain0) t))))"
proof -
  have all: "load_builtin_params (open_and_load f) =
     (case f of
        Absent \<Rightarrow> (Inr (JArr []), [BuiltinNotFound])
      | NotJSON \<Rightarrow> (Inr (JArr []), [BuiltinParseFailed])
      | NotText \<Rightarrow> (Inl UnicodeDecodeError, [])
      | TooDeep well_formed \<Rightarrow> (Inl RecursionError, [])
      | Document v \<Rightarrow> (Inr v, []))"
    by (cases f) (simp_all add: load_builtin_params_def open_and_load_def)
  have empty: "f = Absent \<or> f = NotJSON
      \<longrightarrow> (\<exists>msg. load_builtin_params (open_and_load f) = (Inr (JArr []), [msg]))"
    using all by auto
  have goes_on: "\<not> truthy (fst (get (t_get env) (normalise_domain domain0) t)) \<and>
    fetch_wayback_urls (normalise_domain domain0) (http env) = Inr (urls, m) \<and> urls \<noteq> {} \<and>
    builtin_file env = open_and_load f \<and> (f = Absent \<or> f = NotJSON)
      \<longrightarrow> outcome (scan ex mg env domain0 fmt t) = Returned \<and>
          (BuiltinNotFound \<in> set (console (scan ex mg env domain0 fmt t)) \<or>
           BuiltinParseFailed \<in> set (console (scan ex mg env domain0 fmt t))) \<and>
          store (scan ex mg env domain0 fmt t)
            = set_entry (t_set env) (normalise_domain domain0) (mg (\<Union> (ex ` urls)) (JArr []))
                (snd (snd (get (t_get env) (normalise_domain domain0) t)))"
    using all by (auto simp: scan_miss Let_def)
  from all empty goes_on show ?thesis by blast
qed

theorem load_builtin_params_on_file_witness:
  "load_builtin_params (open_and_load Absent) = (Inr (JArr []), [BuiltinNotFound]) \<and>
   load_builtin_params (open_and_load NotJSON) = (Inr (JArr []), [BuiltinParseFailed]) \<and>
   outcome (scan (\<lambda>u. {u}) (\<lambda>s b. [''q''])
     \<lparr>http = Responds \<lparr>status_code = 200,
          json_body = Some (JArr [JArr [JStr ''original''],
                                  JArr [JStr ''http://example.com/a?x=1'']])\<rparr>,
      builtin_file = open_and_load NotJSON, t_get = 100, t_set = 101\<rparr>
     ''https://Example.com '' None []) = Returned \<and>
   store (scan (\<lambda>u. {u}) (\<lambda>s b. [''q''])
     \<lparr>http = Responds \<lparr>status_code = 200,
          json_body = Some (JArr [JArr [JStr ''original''],
                                  JArr [JStr ''http://example.com/a?x=1'']])\<rparr>,
      builtin_file = open_and_load NotJSON, t_get = 100, t_set = 101\<rparr>
     ''https://Example.com '' None [])
     = [\<lparr>domain = ''example.com'', params_json = [''q''], timestamp = 101\<rparr>]"
proof -
  let ?env = "\<lparr>http = Responds \<lparr>status_code = 200,
          json_body = Some (JArr [JArr [JStr ''original''],
                                  JArr [JStr ''http://example.com/a?x=1'']])\<rparr>,
      builtin_file = open_and_load NotJSON, t_get = 100, t_set = 101\<rparr>"
  have miss: "\<not> truthy (fst (get (t_get ?env) (normalise_domain ''https://Example.com '') []))"
    by (simp add: get_empty_store truthy_def)
  have urls: "fetch_wayback_urls (normalise_domain ''https://Example.com '') (http ?env)
      = Inr ({''http://example.com/a?x=1''}, [])"
    by (simp add: normalise_domain_example fetch_one_row)
  have wl: "builtin_file ?env = open_and_load NotJSON"
    by simp
  have ne: "{''http://example.com/a?x=1''} \<noteq> ({} :: string set)"
    by simp
  from load_builtin_params_on_file [where f = Absent]
  have a: "load_builtin_params (open_and_load Absent) = (Inr (JArr []), [BuiltinNotFound])"
    by simp
  from load_builtin_params_on_file [where f = NotJSON]
  have b: "load_builtin_params (open_and_load NotJSON) = (Inr (JArr []), [BuiltinParseFailed])"
    by simp
  from load_builtin_params_on_file
    [where env = ?env and ?domain0.0 = "''https://Example.com ''" and t = "[]"
       and urls = "{''http://example.com/a?x=1''}" and m = "[]" and f = NotJSON
       and ex = "\<lambda>u. {u}" and mg = "\<lambda>s b. [''q'']" and fmt = None]
    miss urls wl ne
  have c: "outcome (scan (\<lambda>u. {u}) (\<lambda>s b. [''q'']) ?env ''https://Example.com '' None [])
      = Returned"
    and d: "store (scan (\<lambda>u. {u}) (\<lambda>s b. [''q'']) ?env ''https://Example.com '' None [])
      = [\<lparr>domain = ''example.com'', params_json = [''q''], timestamp = 101\<rparr>]"
    by (simp_all add: normalise_domain_example get_empty_store set_entry_def
        insert_or_replace_def py_int_def)
  from a b c d show ?thesis by blast
qed

theorem scan_exits_without_urls_witness:
  "outcome (scan (\<lambda>u. {u}) (\<lambda>s b. [''q''])
     \<lparr>http = Responds \<lparr>status_code = 200, json_body = Some (JArr [JArr [JStr ''original'']])\<rparr>,
      builtin_file = Inr (JArr [JStr ''id'']), t_get = 100, t_set = 101\<rparr>
     ''https://Example.com '' None []) = Exit 1 \<and>
   console (scan (\<lambda>u. {u}) (\<lambda>s b. [''q''])
     \<lparr>http = Responds \<lparr>status_code = 200, json_body = Some (JArr [JArr [JStr ''original'']])\<rparr>,
      builtin_file = Inr (JArr [JStr ''id'']), t_get = 100, t_set = 101\<rparr>
     ''https://Example.com '' None [])
     = [Scanning ''example.com'', NoURLsFound ''example.com''] \<and>
   outcome (scan (\<lambda>u. {u}) (\<lambda>s b. [''q''])
     \<lparr>http = Raises ConnectError,
      builtin_file = Inr (JArr [JStr ''id'']), t_get = 100, t_set = 101\<rparr>
     ''https://Example.com '' None []) = Exit 1"
proof -
  let ?env = "\<lparr>http = Responds \<lparr>status_code = 200,
          json_body = Some (JArr [JArr [JStr ''original'']])\<rparr>,
      builtin_file = Inr (JArr [JStr ''id'']), t_get = 100, t_set = 101\<rparr>"
  let ?env' = "\<lparr>http = Raises ConnectError,
      builtin_file = Inr (JArr [JStr ''id'']), t_get = 100, t_set = 101\<rparr>"
  have miss: "fst (get (t_get ?env) (normalise_domain ''https://Example.com '') []) = None"
    by (simp add: get_empty_store)
  have miss': "fst (get (t_get ?env') (normalise_domain ''https://Example.com '') []) = None"
    by (simp add: get_empty_store)
  have none: "fetch_wayback_urls (normalise_domain ''https://Example.com '') (http ?env)
      = Inr ({}, [])"
    by (simp add: normalise_domain_example fetch_header_only)
  from scan_exits_without_urls
    [where env = ?env and ?domain0.0 = "''https://Example.com ''" and t = "[]" and m = "[]"
       and ex = "\<lambda>u. {u}" and mg = "\<lambda>s b. [''q'']" and fmt = None]
    miss none
  have a: "outcome (scan (\<lambda>u. {u}) (\<lambda>s b. [''q'']) ?env ''https://Example.com '' None []) = Exit 1"
    and b: "console (scan (\<lambda>u. {u}) (\<lambda>s b. [''q'']) ?env ''https://Example.com '' None [])
      = [Scanning ''example.com'', NoURLsFound ''example.com'']"
    by (simp_all add: normalise_domain_example get_empty_store)
  from scan_exits_without_urls
    [where env = ?env' and ?domain0.0 = "''https://Example.com ''" and t = "[]"
       and e = ConnectError
       and ex = "\<lambda>u. {u}" and mg = "\<lambda>s b. [''q'']" and fmt = None]
    miss'
  have c: "outcome (scan (\<lambda>u. {u}) (\<lambda>s b. [''q'']) ?env' ''https://Example.com '' None []) = Exit 1"
    by simp
  from a b c show ?thesis by blast
qed

theorem scan_refetches_on_empty_cached_list_witness:
  "fetch_called (scan (\<lambda>u. {u}) (\<lambda>s b. [''q''])
     \<lparr>http = Responds \<lparr>status_code = 200,
          json_body = Some (JArr [JArr [JStr ''original''],
                                  JArr [JStr ''http://example.com/a?x=1'']])\<rparr>,
      builtin_file = Inr (JArr [JStr ''id'']), t_get = 100, t_set = 101\<rparr>
     ''https://Example.com '' None
     [\<lparr>domain = ''example.com'', params_json = [], timestamp = 50\<rparr>]) \<and>
   store (scan (\<lambda>u. {u}) (\<lambda>s b. [''q''])
     \<lparr>http = Responds \<lparr>status_code = 200,
          json_body = Some (JArr [JArr [JStr ''original''],
                                  JArr [JStr ''http://example.com/a?x=1'']])\<rparr>,
      builtin_file = Inr (JArr [JStr ''id'']), t_get = 100, t_set = 101\<rparr>
     ''https://Example.com '' None
     [\<lparr>domain = ''example.com'', params_json = [], timestamp = 50\<rparr>])
     = [\<lparr>domain = ''example.com'', params_json = [''q''], timestamp = 101\<rparr>] \<and>
   \<not> fetch_called (scan (\<lambda>u. {u}) (\<lambda>s b. [''q''])
     \<lparr>http = Responds \<lparr>status_code = 200,
          json_body = Some (JArr [JArr [JStr ''original''],
                                  JArr [JStr ''http://example.com/a?x=1'']])\<rparr>,
      builtin_file = Inr (JArr [JStr ''id'']), t_get = 100, t_set = 101\<rparr>
     ''https://Example.com '' None
     [\<lparr>domain = ''example.com'', params_json = [''id''], timestamp = 50\<rparr>])"
proof -
  let ?env = "\<lparr>http = Responds \<lparr>status_code = 200,
          json_body = Some (JArr [JArr [JStr ''original''],
                                  JArr [JStr ''http://example.com/a?x=1'']])\<rparr>,
      builtin_file = Inr (JArr [JStr ''id'']), t_get = 100, t_set = 101\<rparr>"
  let ?r0 = "\<lparr>domain = ''example.com'', params_json = [], timestamp = 50\<rparr>"
  let ?r1 = "\<lparr>domain = ''example.com'', params_json = [''id''], timestamp = 50\<rparr>"
  let ?scan = "scan (\<lambda>u. {u}) (\<lambda>s b. [''q'']) ?env ''https://Example.com '' None"
  have sel0: "select_where (normalise_domain ''https://Example.com '') [?r0] = Some ?r0"
    by (simp add: normalise_domain_example select_where_def)
  have sel1: "select_where (normalise_domain ''https://Example.com '') [?r1] = Some ?r1"
    by (simp add: normalise_domain_example select_where_def)
  have fresh0: "t_get ?env - real_of_int (timestamp ?r0) < real_of_int CACHE_TTL"
    by (simp add: CACHE_TTL_def)
  have fresh1: "t_get ?env - real_of_int (timestamp ?r1) < real_of_int CACHE_TTL"
    by (simp add: CACHE_TTL_def)
  have urls: "fetch_wayback_urls (normalise_domain ''https://Example.com '') (http ?env)
      = Inr ({''http://example.com/a?x=1''}, [])"
    by (simp add: normalise_domain_example fetch_one_row)
  have ne: "{''http://example.com/a?x=1''} \<noteq> ({} :: string set)"
    by simp
  from scan_refetches_on_empty_cached_list
    [where env = ?env and ?domain0.0 = "''https://Example.com ''" and t = "[?r0]" and r = ?r0
       and urls = "{''http://example.com/a?x=1''}" and m = "[]" and builtin = "JArr [JStr ''id'']"
       and ex = "\<lambda>u. {u}" and mg = "\<lambda>s b. [''q'']" and fmt = None]
    sel0 fresh0 urls ne
  have a: "fetch_called (?scan [?r0])"
    and b: "store (?scan [?r0])
      = [\<lparr>domain = ''example.com'', params_json = [''q''], timestamp = 101\<rparr>]"
    by (simp_all add: normalise_domain_example set_entry_def insert_or_replace_def py_int_def)
  from scan_refetches_on_empty_cached_list
    [where env = ?env and ?domain0.0 = "''https://Example.com ''" and t = "[?r1]" and r = ?r1
       and ex = "\<lambda>u. {u}" and mg = "\<lambda>s b. [''q'']" and fmt = None]
    sel1 fresh1
  have c: "\<not> fetch_called (?scan [?r1])"
    by simp
  from a b c show ?thesis by blast
qed

section \<open>Properties of the parameter extractor\<close>

lemma split_on_not_Nil: "split_on sep s \<noteq> []"
  by (induction s) (auto split: list.splits)

lemma split_on_no_sep: "sep \<notin> set p \<Longrightarrow> split_on sep p = [p]"
  by (induction p) (auto split: list.splits)

lemma split_on_append_sep:
  "sep \<notin> set p \<Longrightarrow> split_on sep (p @ sep # rest) = p # split_on sep rest"
  by (induction p) (auto split: list.splits)

lemma unquote_plus_plain:
  "CHR ''%'' \<notin> set s \<Longrightarrow> CHR ''+'' \<notin> set s \<Longrightarrow> unquote_plus s = s"
  by (induction s rule: unquote_plus.induct) auto

lemma plain_text_simps:
  "plain_text s \<Longrightarrow> CHR ''&'' \<notin> set s"
  "plain_text s \<Longrightarrow> CHR ''='' \<notin> set s"
  "plain_text s \<Longrightarrow> CHR ''#'' \<notin> set s"
  "plain_text s \<Longrightarrow> CHR ''%'' \<notin> set s"
  "plain_text s \<Longrightarrow> CHR ''+'' \<notin> set s"
  by (auto simp: plain_text_def)

lemma pieces_of_query_string:
  "\<forall>(k, v) \<in> set kvs. plain_text k \<and> plain_text v \<Longrightarrow>
   filter (\<lambda>p. p \<noteq> []) (split_on CHR ''&'' (query_string kvs))
     = map (\<lambda>(k, v). k @ ''='' @ v) kvs"
proof (induction kvs rule: query_string.induct)
  case 1
  then show ?case by simp
next
  case (2 k v)
  then have "CHR ''&'' \<notin> set (k @ ''='' @ v)"
    by (auto dest: plain_text_simps(1))
  from split_on_no_sep [OF this] show ?case by simp
next
  case (3 k v kv kvs)
  then have "CHR ''&'' \<notin> set (k @ ''='' @ v)"
    by (auto dest: plain_text_simps(1))
  from split_on_append_sep [OF this, of "query_string (kv # kvs)"] 3
  show ?case by simp
qed

lemma no_hash_in_query_string:
  "\<forall>(k, v) \<in> set kvs. plain_text k \<and> plain_text v \<Longrightarrow> CHR ''#'' \<notin> set (query_string kvs)"
  by (induction kvs rule: query_string.induct) (auto dest: plain_text_simps(3))

lemma pair_of_piece:
  assumes "plain_text k" and "plain_text v"
  shows "unquote_plus (takeWhile (\<lambda>c. c \<noteq> CHR ''='') (k @ ''='' @ v)) = k"
    and "unquote_plus (drop 1 (dropWhile (\<lambda>c. c \<noteq> CHR ''='') (k @ ''='' @ v))) = v"
proof -
  from assms(1) have k: "\<forall>c \<in> set k. c \<noteq> CHR ''=''"
    by (auto dest: plain_text_simps(2))
  then have "takeWhile (\<lambda>c. c \<noteq> CHR ''='') (k @ ''='' @ v) = k"
    by (simp add: takeWhile_append2 [of k])
  with assms(1) show "unquote_plus (takeWhile (\<lambda>c. c \<noteq> CHR ''='') (k @ ''='' @ v)) = k"
    by (simp add: unquote_plus_plain plain_text_simps)
  from k have "dropWhile (\<lambda>c. c \<noteq> CHR ''='') (k @ ''='' @ v) = ''='' @ v"
    by (simp add: dropWhile_append2 [of k])
  with assms(2) show "unquote_plus (drop 1 (dropWhile (\<lambda>c. c \<noteq> CHR ''='') (k @ ''='' @ v))) = v"
    by (simp add: unquote_plus_plain plain_text_simps)
qed

lemma query_pairs_query_string:
  assumes "\<forall>(k, v) \<in> set kvs. plain_text k \<and> plain_text v"
  shows "query_pairs (query_string kvs) = kvs"
proof -
  have "map (\<lambda>p. (unquote_plus (takeWhile (\<lambda>c. c \<noteq> CHR ''='') p),
                   unquote_plus (drop 1 (dropWhile (\<lambda>c. c \<noteq> CHR ''='') p))))
          (map (\<lambda>(k, v). k @ ''='' @ v) kvs) = kvs"
    using assms
  proof (induction kvs)
    case Nil
    then show ?case by simp
  next
    case (Cons kv kvs)
    obtain k v where kv: "kv = (k, v)" by (cases kv)
    with Cons.prems have "plain_text k" "plain_text v" by auto
    from pair_of_piece [OF this] Cons kv show ?case by simp
  qed
  with pieces_of_query_string [OF assms] show ?thesis
    by (simp add: query_pairs_def)
qed

lemma url_query_of_base:
  assumes "CHR ''?'' \<notin> set base" and "CHR ''#'' \<notin> set base" and "CHR ''#'' \<notin> set q"
  shows "url_query (base @ ''?'' @ q) = Some q"
proof -
  have all: "\<forall>c \<in> set (base @ ''?'' @ q). c \<noteq> CHR ''#''"
    using assms(2,3) by auto
  then have t: "takeWhile (\<lambda>c. c \<noteq> CHR ''#'') (base @ ''?'' @ q) = base @ ''?'' @ q"
    by (simp only: takeWhile_eq_all_conv)
  from assms(1) have "\<forall>c \<in> set base. c \<noteq> CHR ''?''"
    by auto
  then have d: "dropWhile (\<lambda>c. c \<noteq> CHR ''?'') (base @ ''?'' @ q) = ''?'' @ q"
    by (simp add: dropWhile_append2 [of base])
  show ?thesis
    unfolding url_query_def Let_def t d by simp
qed

text \<open>
  C9. The extractor returns the set of the keys of the pairs of the query component.
  For a URL written as a base with neither \<open>?\<close> nor \<open>#\<close>, then \<open>?\<close>, then pairs \<open>k=v\<close>
  joined by \<open>&\<close> (keys and values free of \<open>&\<close>, \<open>=\<close>, \<open>#\<close>, \<open>%\<close>, \<open>+\<close>), it returns
  exactly the set of the keys: a repeated key counts once, the values play no part. So
  \<open>https://x.com/path?a=1&b=2&a=3\<close> gives \<open>{a, b}\<close>. A URL with no query component, as
  \<open>https://x.com/path\<close>, gives the empty set. The extractor is a total function: nothing
  is raised.
\<close>

theorem extract_params_keys:
  "extract_params u = (case url_query u of None \<Rightarrow> {} | Some q \<Rightarrow> fst ` set (query_pairs q)) \<and>
   (CHR ''?'' \<notin> set base \<and> CHR ''#'' \<notin> set base \<and>
    (\<forall>(k, v) \<in> set kvs. plain_text k \<and> plain_text v)
      \<longrightarrow> extract_params (base @ ''?'' @ query_string kvs) = fst ` set kvs) \<and>
   extract_params ''https://x.com/path?a=1&b=2&a=3'' = {''a'', ''b''} \<and>
   (url_query u = None \<longrightarrow> extract_params u = {}) \<and>
   (CHR ''?'' \<notin> set u \<longrightarrow> extract_params u = {}) \<and>
   extract_params ''https://x.com/path'' = {}"
proof -
  have def: "extract_params u
      = (case url_query u of None \<Rightarrow> {} | Some q \<Rightarrow> fst ` set (query_pairs q))"
    by (simp add: extract_params_def split: option.splits)
  have general: "CHR ''?'' \<notin> set base \<and> CHR ''#'' \<notin> set base \<and>
    (\<forall>(k, v) \<in> set kvs. plain_text k \<and> plain_text v)
      \<longrightarrow> extract_params (base @ ''?'' @ query_string kvs) = fst ` set kvs"
  proof (intro impI, elim conjE)
    assume b: "CHR ''?'' \<notin> set base" "CHR ''#'' \<notin> set base"
      and p: "\<forall>(k, v) \<in> set kvs. plain_text k \<and> plain_text v"
    from url_query_of_base [OF b no_hash_in_query_string [OF p]]
      query_pairs_query_string [OF p]
    show "extract_params (base @ ''?'' @ query_string kvs) = fst ` set kvs"
      by (simp add: extract_params_def)
  qed
  have absent: "url_query u = None \<longrightarrow> extract_params u = {}"
    by (simp add: extract_params_def)
  have no_mark: "CHR ''?'' \<notin> set u \<longrightarrow> extract_params u = {}"
    by (auto simp: extract_params_def url_query_def Let_def dest: set_takeWhileD)
  have ex1: "extract_params ''https://x.com/path?a=1&b=2&a=3'' = {''a'', ''b''}"
    by (auto simp: extract_params_def url_query_def query_pairs_def)
  have ex2: "extract_params ''https://x.com/path'' = {}"
    by (simp add: extract_params_def url_query_def)
  from def general ex1 absent no_mark ex2 show ?thesis by blast
qed

theorem extract_params_keys_witness:
  "extract_params ''https://x.com/path?a=1&b=2&a=3'' = {''a'', ''b''} \<and>
   extract_params ''https://x.com/path#top?a=1'' = {} \<and>
   extract_params ''https://x.com/path'' = {}"
proof -
  let ?kvs = "[(''a'', ''1''), (''b'', ''2''), (''a'', ''3'')]"
  have b: "CHR ''?'' \<notin> set ''https://x.com/path''" "CHR ''#'' \<notin> set ''https://x.com/path''"
    by simp_all
  have p: "\<forall>(k, v) \<in> set ?kvs. plain_text k \<and> plain_text v"
    by (simp add: plain_text_def)
  have q: "''https://x.com/path'' @ ''?'' @ query_string ?kvs = ''https://x.com/path?a=1&b=2&a=3''"
    by simp
  have s: "fst ` set ?kvs = {''a'', ''b''}"
    by auto
  from extract_params_keys [where base = "''https://x.com/path''" and kvs = ?kvs] b p
  have "extract_params (''https://x.com/path'' @ ''?'' @ query_string ?kvs) = fst ` set ?kvs"
    by blast
  with q s have one: "extract_params ''https://x.com/path?a=1&b=2&a=3'' = {''a'', ''b''}"
    by simp
  have n: "url_query ''https://x.com/path#top?a=1'' = None"
    by (simp add: url_query_def)
  from extract_params_keys [where u = "''https://x.com/path#top?a=1''"] n
  have two: "extract_params ''https://x.com/path#top?a=1'' = {}"
    by blast
  have m: "CHR ''?'' \<notin> set ''https://x.com/path''"
    by simp
  from extract_params_keys [where u = "''https://x.com/path''"] m
  have three: "extract_params ''https://x.com/path'' = {}"
    by blast
  from one two three show ?thesis by blast
qed

end
